theory Spec2Isabelle
  imports Main "HOL-Library.Sublist" "HOL-Library.Multiset"
begin

section \<open>Strings of the host language\<close>

text \<open>
  The plugin is TypeScript; its strings are sequences of UTF-16 code units. A \<^typ>\<open>char\<close>
  stands for one code unit below 256, so the development covers every string of the
  Latin-1 range exactly (lengths, slices, character classes, lower-casing), and no other.
\<close>

definition isWhiteSpace :: "char \<Rightarrow> bool" where
  \<comment> \<open>the class \<open>\s\<close> of a regular expression, which is also what \<open>trim\<close> strips:
      TAB, LF, VT, FF, CR, SPACE and NBSP are its members below 256\<close>
  "isWhiteSpace c = (of_char c \<in> {9, 10, 11, 12, 13, 32, 160 :: nat})"

definition isReserved :: "char \<Rightarrow> bool" where
  \<comment> \<open>the class \<open>[\\/:*?"<>|#]\<close> of \<open>sanitizeFileName\<close>\<close>
  "isReserved c = (c \<in> {CHR 0x5C, CHR ''/'', CHR '':'', CHR ''*'', CHR ''?'', CHR 0x22,
                         CHR ''<'', CHR ''>'', CHR ''|'', CHR ''#''})"

function collapseWs :: "string \<Rightarrow> string" where
  \<comment> \<open>\<open>.replace(/\s+/g, ' ')\<close>: every maximal run of white space becomes one space\<close>
  "collapseWs [] = []"
| "collapseWs (c # cs) =
     (if isWhiteSpace c then CHR '' '' # collapseWs (dropWhile isWhiteSpace cs)
      else c # collapseWs cs)"
  by pat_completeness auto
termination
  by (relation "measure length") (auto simp: less_Suc_eq_le length_dropWhile_le)

definition trim :: "string \<Rightarrow> string" where
  "trim s = rev (dropWhile isWhiteSpace (rev (dropWhile isWhiteSpace s)))"

definition replaceReserved :: "string \<Rightarrow> string" where
  \<comment> \<open>\<open>.replace(/[\\/:*?"<>|#]/g, '_')\<close>\<close>
  "replaceReserved s = map (\<lambda>c. if isReserved c then CHR ''_'' else c) s"

definition sanitizeFileName :: "string \<Rightarrow> string" where
  "sanitizeFileName fileName = trim (collapseWs (replaceReserved fileName))"

definition toLowerChar :: "char \<Rightarrow> char" where
  \<comment> \<open>\<open>toLowerCase\<close> on one code unit below 256: A-Z, and the Latin-1 capitals
      U+00C0..U+00DE other than the multiplication sign U+00D7\<close>
  "toLowerChar c =
     (let n = (of_char c :: nat)
      in if (65 \<le> n \<and> n \<le> 90) \<or> (192 \<le> n \<and> n \<le> 222 \<and> n \<noteq> 215)
         then char_of (n + 32) else c)"

definition toLowerCase :: "string \<Rightarrow> string" where
  "toLowerCase s = map toLowerChar s"

fun split :: "char \<Rightarrow> string \<Rightarrow> string list" where
  \<comment> \<open>\<open>s.split(sep)\<close> for a one-character separator; the empty string gives \<open>['']\<close>, so
      the result is never empty and the last case is never taken\<close>
  "split sep [] = [[]]"
| "split sep (c # cs) =
     (if c = sep then [] # split sep cs
      else (case split sep cs of
              p # ps \<Rightarrow> (c # p) # ps
            | [] \<Rightarrow> [[c]]))"

fun join :: "string \<Rightarrow> string list \<Rightarrow> string" where
  \<comment> \<open>\<open>parts.join(sep)\<close>\<close>
  "join sep [] = []"
| "join sep [p] = p"
| "join sep (p # q # ps) = p @ sep @ join sep (q # ps)"

fun includesStr :: "string \<Rightarrow> string \<Rightarrow> bool" where
  \<comment> \<open>\<open>s.includes(pat)\<close>, the pattern first\<close>
  "includesStr pat [] = (pat = [])"
| "includesStr pat (c # cs) = (prefix pat (c # cs) \<or> includesStr pat cs)"

fun removeFirst :: "string \<Rightarrow> string \<Rightarrow> string" where
  \<comment> \<open>\<open>s.replace(pat, '')\<close> with a string pattern: the first occurrence only\<close>
  "removeFirst pat [] = []"
| "removeFirst pat (c # cs) =
     (if prefix pat (c # cs) then drop (length pat) (c # cs) else c # removeFirst pat cs)"

definition padStart :: "nat \<Rightarrow> char \<Rightarrow> string \<Rightarrow> string" where
  "padStart n c s = replicate (n - length s) c @ s"

definition digitChar :: "nat \<Rightarrow> char" where
  "digitChar d = char_of (48 + d)"

function showNat :: "nat \<Rightarrow> string" where
  "showNat n = (if n < 10 then [digitChar n] else showNat (n div 10) @ [digitChar (n mod 10)])"
  by pat_completeness auto
termination
  by (relation "measure id") auto

declare showNat.simps [simp del]

definition String_of :: "int option \<Rightarrow> string" where
  \<comment> \<open>\<open>String(x)\<close> of an integral number; \<open>None\<close> is NaN\<close>
  "String_of x =
     (case x of None \<Rightarrow> ''NaN''
      | Some i \<Rightarrow> if i < 0 then CHR ''-'' # showNat (nat (- i)) else showNat (nat i))"

definition isDigit :: "char \<Rightarrow> bool" where
  "isDigit c = (48 \<le> (of_char c :: nat) \<and> (of_char c :: nat) \<le> 57)"

definition parseNat :: "string \<Rightarrow> nat" where
  "parseNat s = foldl (\<lambda>a c. 10 * a + (of_char c - 48)) 0 s"

definition hexDigit :: "nat \<Rightarrow> char" where
  "hexDigit d = (if d < 10 then char_of (48 + d) else char_of (55 + d))"

definition isUriUnreserved :: "char \<Rightarrow> bool" where
  \<comment> \<open>the characters \<open>encodeURIComponent\<close> leaves alone\<close>
  "isUriUnreserved c =
     (let n = (of_char c :: nat)
      in (65 \<le> n \<and> n \<le> 90) \<or> (97 \<le> n \<and> n \<le> 122) \<or> (48 \<le> n \<and> n \<le> 57)
         \<or> c \<in> set ''-_.!~*'()'')"

definition percent :: "nat \<Rightarrow> string" where
  "percent b = [CHR ''%'', hexDigit (b div 16), hexDigit (b mod 16)]"

definition encodeURIComponent :: "string \<Rightarrow> string" where
  \<comment> \<open>percent-encoding of the UTF-8 bytes: one byte below U+0080, two bytes up to U+00FF\<close>
  "encodeURIComponent s =
     concat (map (\<lambda>c. let n = (of_char c :: nat)
                      in if isUriUnreserved c then [c]
                         else if n < 128 then percent n
                         else percent (192 + n div 64) @ percent (128 + n mod 64)) s)"

section \<open>Dates of the host language\<close>

text \<open>
  A \<open>Date\<close> object holds a time value, the milliseconds since 1970-01-01T00:00:00Z, or
  NaN when the string it was made from is not a date; \<open>None\<close> stands for NaN. The getters
  read the local calendar: the zone of the machine is a parameter, its offset from UTC in
  minutes. The calendar is the proleptic Gregorian one.
\<close>

type_synonym Date = "int option"

definition civilFromDays :: "int \<Rightarrow> int \<times> int \<times> int" where
  \<comment> \<open>year, month (1 to 12) and day of the month of a day number counted from 1970-01-01\<close>
  "civilFromDays z0 =
     (let z = z0 + 719468;
          era = z div 146097;
          doe = z - era * 146097;
          yoe = (doe - doe div 1460 + doe div 36524 - doe div 146096) div 365;
          doy = doe - (365 * yoe + yoe div 4 - yoe div 100);
          mp = (5 * doy + 2) div 153;
          d = doy - (153 * mp + 2) div 5 + 1;
          m = (if mp < 10 then mp + 3 else mp - 9);
          y = yoe + era * 400 + (if m \<le> 2 then 1 else 0)
      in (y, m, d))"

definition daysFromCivil :: "int \<Rightarrow> int \<Rightarrow> int \<Rightarrow> int" where
  "daysFromCivil y0 m d =
     (let y = (if m \<le> 2 then y0 - 1 else y0);
          era = y div 400;
          yoe = y - era * 400;
          doy = (153 * (if m > 2 then m - 3 else m + 9) + 2) div 5 + d - 1;
          doe = yoe * 365 + yoe div 4 - yoe div 100 + doy
      in era * 146097 + doe - 719468)"

definition daysInMonth :: "int \<Rightarrow> int \<Rightarrow> int" where
  "daysInMonth y m =
     (if m = 2 then (if y mod 4 = 0 \<and> (y mod 100 \<noteq> 0 \<or> y mod 400 = 0) then 29 else 28)
      else if m \<in> {4, 6, 9, 11} then 30 else 31)"

definition newDate :: "string \<Rightarrow> Date" where
  \<comment> \<open>\<open>new Date(s)\<close> for the timestamps the remote service sends, \<open>YYYY-MM-DDTHH:MM:SSZ\<close>;
      every other string is taken as no date (engines differ on what else they accept)\<close>
  "newDate s =
     (if length s = 20 \<and> s ! 4 = CHR ''-'' \<and> s ! 7 = CHR ''-'' \<and> s ! 10 = CHR ''T''
         \<and> s ! 13 = CHR '':'' \<and> s ! 16 = CHR '':'' \<and> s ! 19 = CHR ''Z''
         \<and> list_all isDigit (take 4 s) \<and> list_all isDigit (take 2 (drop 5 s))
         \<and> list_all isDigit (take 2 (drop 8 s)) \<and> list_all isDigit (take 2 (drop 11 s))
         \<and> list_all isDigit (take 2 (drop 14 s)) \<and> list_all isDigit (take 2 (drop 17 s))
      then
        (let y = int (parseNat (take 4 s));
             mo = int (parseNat (take 2 (drop 5 s)));
             d = int (parseNat (take 2 (drop 8 s)));
             h = int (parseNat (take 2 (drop 11 s)));
             mi = int (parseNat (take 2 (drop 14 s)));
             se = int (parseNat (take 2 (drop 17 s)))
         in if 1 \<le> mo \<and> mo \<le> 12 \<and> 1 \<le> d \<and> d \<le> daysInMonth y mo
               \<and> h \<le> 23 \<and> mi \<le> 59 \<and> se \<le> 59
            then Some ((daysFromCivil y mo d * 86400 + h * 3600 + mi * 60 + se) * 1000)
            else None)
      else None)"

definition getTime :: "Date \<Rightarrow> int option" where
  "getTime date = date"

definition localTime :: "int \<Rightarrow> int \<Rightarrow> int" where
  "localTime tz t = t + tz * 60000"

definition getFullYear :: "int \<Rightarrow> Date \<Rightarrow> int option" where
  "getFullYear tz date =
     map_option (\<lambda>t. fst (civilFromDays (localTime tz t div 86400000))) date"

definition getMonth :: "int \<Rightarrow> Date \<Rightarrow> int option" where
  \<comment> \<open>counted from 0\<close>
  "getMonth tz date =
     map_option (\<lambda>t. fst (snd (civilFromDays (localTime tz t div 86400000))) - 1) date"

definition getDate :: "int \<Rightarrow> Date \<Rightarrow> int option" where
  "getDate tz date =
     map_option (\<lambda>t. snd (snd (civilFromDays (localTime tz t div 86400000)))) date"

definition getHours :: "int \<Rightarrow> Date \<Rightarrow> int option" where
  "getHours tz date = map_option (\<lambda>t. (localTime tz t mod 86400000) div 3600000) date"

definition getMinutes :: "int \<Rightarrow> Date \<Rightarrow> int option" where
  "getMinutes tz date = map_option (\<lambda>t. (localTime tz t mod 3600000) div 60000) date"

definition getSeconds :: "int \<Rightarrow> Date \<Rightarrow> int option" where
  "getSeconds tz date = map_option (\<lambda>t. (localTime tz t mod 60000) div 1000) date"

datatype dateFormat = Filename | Display

definition formatDateTime :: "int \<Rightarrow> Date \<Rightarrow> dateFormat \<Rightarrow> string" where
  "formatDateTime tz date format =
     (let year = getFullYear tz date;
          month = padStart 2 CHR ''0'' (String_of (map_option (\<lambda>m. m + 1) (getMonth tz date)));
          day = padStart 2 CHR ''0'' (String_of (getDate tz date));
          hours = padStart 2 CHR ''0'' (String_of (getHours tz date));
          minutes = padStart 2 CHR ''0'' (String_of (getMinutes tz date));
          seconds = padStart 2 CHR ''0'' (String_of (getSeconds tz date))
      in if format = Filename
         then String_of year @ ''-'' @ month @ ''-'' @ day @ '' '' @ hours @ ''-'' @ minutes
         else String_of year @ ''-'' @ month @ ''-'' @ day @ '' '' @ hours @ '':'' @ minutes
              @ '':'' @ seconds)"

section \<open>Data model\<close>

record resource =
  rname :: string
  ruid :: string
  filename :: string
  rtype :: string
  rsize :: string
  rcreateTime :: string

record MemoItem =
  name :: string
  uid :: string
  content :: string
  visibility :: string
  createTime :: string
  updateTime :: string
  displayTime :: string
  creator :: string
  rowStatus :: string
  pinned :: bool
  resources :: "resource list"
  tags :: "string list"

datatype syncFrequencyT = Manual | Auto

record MemosPluginSettings =
  memosApiUrl :: string
  memosAccessToken :: string
  syncDirectory :: string
  syncFrequency :: syncFrequencyT
  autoSyncInterval :: int
  syncLimit :: int

definition DEFAULT_SETTINGS :: MemosPluginSettings where
  "DEFAULT_SETTINGS =
     \<lparr>memosApiUrl = [], memosAccessToken = [], syncDirectory = ''memos'',
      syncFrequency = Manual, autoSyncInterval = 30, syncLimit = 1000\<rparr>"

section \<open>The host: network, file store, notices\<close>

text \<open>
  Everything the plugin throws is a value of \<open>error\<close>. \<open>FailedToFetch\<close> is the transport's
  own \<open>TypeError\<close>; \<open>fetchAllMemos\<close> rethrows it as \<open>NetworkError\<close>.
\<close>

datatype error =
    UrlNotConfigured
  | TokenNotConfigured
  | ApiUrlFormat
  | HttpError nat
  | JsonParseError
  | InvalidResponseFormat
  | FailedToFetch
  | NetworkError
  | StoreError string
  | SaveFailed error

datatype 'a response = Threw error | Resp nat 'a

definition ok :: "nat \<Rightarrow> bool" where
  \<comment> \<open>\<open>response.ok\<close>: the status is 2xx\<close>
  "ok status = (200 \<le> status \<and> status \<le> 299)"

text \<open>
  What \<open>JSON.parse\<close> makes of a response text: nothing, or an object whose \<open>memos\<close> is an
  array of records or is not one, and whose \<open>nextPageToken\<close> is a string or absent.
\<close>

datatype MemosResponse = NotJson | Json "MemoItem list option" "string option"

text \<open>
  A request is logged as it is sent. A page request is the URL before its query string
  and the \<open>offset\<close> parameter when there is one (\<open>rowStatus\<close> and \<open>limit\<close> are constants).
\<close>

datatype request = GetMemos string "string option" | GetFile string

datatype notice = SyncStarted | Found nat | Synced nat | SyncFailed error

record host =
  tzMinutes :: int
  fetchPage :: "string \<Rightarrow> string option \<Rightarrow> MemosResponse response"
  fetchFile :: "string \<Rightarrow> string response"
  writeFails :: "string \<Rightarrow> bool"

record world =
  files :: "string \<rightharpoonup> string"
  folders :: "string set"
  netlog :: "request list"
  notices :: "notice list"

definition exists_path :: "world \<Rightarrow> string \<Rightarrow> bool" where
  \<comment> \<open>\<open>adapter.exists(path)\<close>\<close>
  "exists_path w p = (files w p \<noteq> None \<or> p \<in> folders w)"

definition mkdir :: "string \<Rightarrow> world \<Rightarrow> world" where
  "mkdir p w = w\<lparr>folders := insert p (folders w)\<rparr>"

definition ensureDirectoryExists :: "string \<Rightarrow> world \<Rightarrow> world" where
  "ensureDirectoryExists dirPath w = (if \<not> exists_path w dirPath then mkdir dirPath w else w)"

definition putFile :: "string \<Rightarrow> string \<Rightarrow> world \<Rightarrow> world" where
  "putFile p data w = w\<lparr>files := (files w)(p \<mapsto> data)\<rparr>"

definition writeBinary :: "host \<Rightarrow> string \<Rightarrow> string \<Rightarrow> world \<Rightarrow> error + world" where
  \<comment> \<open>\<open>adapter.writeBinary(path, buffer)\<close>; the host may refuse a path\<close>
  "writeBinary h p data w = (if writeFails h p then Inl (StoreError p) else Inr (putFile p data w))"

definition vault_create :: "host \<Rightarrow> string \<Rightarrow> string \<Rightarrow> world \<Rightarrow> error + world" where
  \<comment> \<open>\<open>vault.create(path, data)\<close>, called for a path that does not exist\<close>
  "vault_create h p data w = (if writeFails h p then Inl (StoreError p) else Inr (putFile p data w))"

definition vault_modify :: "host \<Rightarrow> string \<Rightarrow> string \<Rightarrow> world \<Rightarrow> error + world" where
  \<comment> \<open>\<open>vault.modify(getAbstractFileByPath(path), data)\<close>, called for a path that exists: the
      object found there is a file, or a folder, which cannot be written as a file\<close>
  "vault_modify h p data w =
     (if writeFails h p \<or> files w p = None then Inl (StoreError p) else Inr (putFile p data w))"

definition displayMessage :: "notice \<Rightarrow> world \<Rightarrow> world" where
  "displayMessage n w = w\<lparr>notices := notices w @ [n]\<rparr>"

definition send :: "request \<Rightarrow> world \<Rightarrow> world" where
  "send r w = w\<lparr>netlog := netlog w @ [r]\<rparr>"

section \<open>Remote paginator\<close>

definition truthy :: "string option \<Rightarrow> bool" where
  \<comment> \<open>a string that is neither absent nor empty\<close>
  "truthy t = (case t of None \<Rightarrow> False | Some s \<Rightarrow> s \<noteq> [])"


text \<open>
  The \<open>while\<close> loop of \<open>fetchAllMemos\<close>. Nothing bounds the number of pages a remote may
  serve, so the loop need not end: \<open>None\<close> is the run that never returns.
\<close>

partial_function (option) fetchLoop ::
  "host \<Rightarrow> MemosPluginSettings \<Rightarrow> MemoItem list \<Rightarrow> string option \<Rightarrow> world
     \<Rightarrow> ((error + MemoItem list) \<times> world) option"
where
  "fetchLoop h s allMemos pageToken w =
     (if int (length allMemos) < syncLimit s then
        (let url = memosApiUrl s @ ''/memos'';
             offset = (if truthy pageToken then pageToken else None);
             w' = send (GetMemos url offset) w
         in case fetchPage h url offset of
              Threw e \<Rightarrow> Some (Inl e, w')
            | Resp status data \<Rightarrow>
                if \<not> ok status then Some (Inl (HttpError status), w')
                else (case data of
                        NotJson \<Rightarrow> Some (Inl JsonParseError, w')
                      | Json None nextPageToken \<Rightarrow> Some (Inl InvalidResponseFormat, w')
                      | Json (Some memos) nextPageToken \<Rightarrow>
                          if \<not> truthy nextPageToken
                             \<or> int (length (allMemos @ memos)) \<ge> syncLimit s
                          then Some (Inr (allMemos @ memos), w')
                          else fetchLoop h s (allMemos @ memos) nextPageToken w'))
      else Some (Inr allMemos, w))"

declare fetchLoop.simps [code]

definition slice0 :: "'a list \<Rightarrow> int \<Rightarrow> 'a list" where
  \<comment> \<open>\<open>xs.slice(0, n)\<close>; a negative end counts from the end of the array\<close>
  "slice0 xs n = (if n < 0 then take (length xs - nat (- n)) xs else take (nat n) xs)"

definition compareCreateTime :: "MemoItem \<Rightarrow> MemoItem \<Rightarrow> int" where
  \<comment> \<open>the comparator of the final sort; a difference with NaN is NaN, which \<open>sort\<close> reads as 0\<close>
  "compareCreateTime a b =
     (case (getTime (newDate (createTime b)), getTime (newDate (createTime a))) of
        (Some tb, Some ta) \<Rightarrow> tb - ta
      | _ \<Rightarrow> 0)"

fun insertBy :: "('a \<Rightarrow> 'a \<Rightarrow> int) \<Rightarrow> 'a \<Rightarrow> 'a list \<Rightarrow> 'a list" where
  "insertBy cmp x [] = [x]"
| "insertBy cmp x (y # ys) = (if cmp x y \<le> 0 then x # y # ys else y # insertBy cmp x ys)"

definition sortBy :: "('a \<Rightarrow> 'a \<Rightarrow> int) \<Rightarrow> 'a list \<Rightarrow> 'a list" where
  \<comment> \<open>\<open>xs.sort(cmp)\<close>: the sort is stable, so with a consistent comparator its result is the
      one of a stable insertion sort\<close>
  "sortBy cmp xs = foldr (insertBy cmp) xs []"

definition fetchAllMemos ::
  "host \<Rightarrow> MemosPluginSettings \<Rightarrow> world \<Rightarrow> ((error + MemoItem list) \<times> world) option"
where
  "fetchAllMemos h s w =
     (if \<not> includesStr ''/api/v1'' (memosApiUrl s) then Some (Inl ApiUrlFormat, w)
      else case fetchLoop h s [] None w of
             None \<Rightarrow> None
           | Some (Inl e, w') \<Rightarrow> Some (Inl (if e = FailedToFetch then NetworkError else e), w')
           | Some (Inr allMemos, w') \<Rightarrow>
               Some (Inr (sortBy compareCreateTime (slice0 allMemos (syncLimit s))), w'))"

section \<open>Path and name derivation\<close>

function commonLoop :: "string list \<Rightarrow> string list \<Rightarrow> nat \<Rightarrow> nat" where
  \<comment> \<open>the \<open>while\<close> loop of \<open>getRelativePath\<close>, from index \<open>i\<close>\<close>
  "commonLoop fromParts toParts i =
     (if i < length fromParts \<and> i < length toParts \<and> fromParts ! i = toParts ! i
      then commonLoop fromParts toParts (Suc i) else i)"
  by pat_completeness auto
termination
  by (relation "measure (\<lambda>(fromParts, toParts, i). length fromParts - i)") auto

declare commonLoop.simps [simp del]

definition getRelativePath :: "string \<Rightarrow> string \<Rightarrow> string" where
  "getRelativePath fromPath toPath =
     (let fromParts = butlast (split CHR ''/'' fromPath);
          toParts = split CHR ''/'' toPath;
          i = commonLoop fromParts toParts 0;
          goBack = length fromParts - i
      in join ''/'' (replicate goBack ''..'' @ drop i toParts))"

definition imageExtensions :: "string list" where
  "imageExtensions = [''.jpg'', ''.jpeg'', ''.png'', ''.gif'', ''.bmp'', ''.webp'']"

definition isImageFile :: "string \<Rightarrow> bool" where
  "isImageFile fname =
     (let ext = last (split CHR ''.'' (toLowerCase fname))
      in if ext \<noteq> [] then (CHR ''.'' # ext) \<in> set imageExtensions else False)"

section \<open>Resource materializer\<close>

definition resourceIdOf :: "resource \<Rightarrow> string" where
  \<comment> \<open>\<open>resource.name.split('/').pop() || resource.name\<close>\<close>
  "resourceIdOf r =
     (let p = last (split CHR ''/'' (rname r)) in if p \<noteq> [] then p else rname r)"

definition localPathOf :: "resource \<Rightarrow> string \<Rightarrow> string" where
  \<comment> \<open>\<open>localPath\<close> of \<open>downloadResource\<close>\<close>
  "localPathOf r targetDir =
     (targetDir @ ''/resources'') @ ''/'' @ (resourceIdOf r @ ''_'' @ sanitizeFileName (filename r))"

definition downloadResource_try ::
  "host \<Rightarrow> MemosPluginSettings \<Rightarrow> resource \<Rightarrow> string \<Rightarrow> world
     \<Rightarrow> (error + string option) \<times> world"
where
  \<comment> \<open>the body of the \<open>try\<close> block\<close>
  "downloadResource_try h s r targetDir w =
     (let resourceId = resourceIdOf r;
          resourceUrl = removeFirst ''/api/v1'' (memosApiUrl s) @ ''/file/resources/''
                          @ resourceId @ ''/'' @ encodeURIComponent (filename r);
          resourceDir = targetDir @ ''/resources'';
          w1 = ensureDirectoryExists resourceDir w;
          localFilename = resourceId @ ''_'' @ sanitizeFileName (filename r);
          localPath = resourceDir @ ''/'' @ localFilename
      in if exists_path w1 localPath then (Inr (Some localPath), w1)
         else (let w2 = send (GetFile resourceUrl) w1
               in case fetchFile h resourceUrl of
                    Threw e \<Rightarrow> (Inl e, w2)
                  | Resp status buffer \<Rightarrow>
                      if \<not> ok status then (Inr None, w2)
                      else (case writeBinary h localPath buffer w2 of
                              Inl e \<Rightarrow> (Inl e, w2)
                            | Inr w3 \<Rightarrow> (Inr (Some localPath), w3))))"

definition downloadResource ::
  "host \<Rightarrow> MemosPluginSettings \<Rightarrow> resource \<Rightarrow> string \<Rightarrow> world \<Rightarrow> string option \<times> world"
where
  \<comment> \<open>\<open>try { ... } catch (error) { return null; }\<close>\<close>
  "downloadResource h s r targetDir w =
     (case downloadResource_try h s r targetDir w of
        (Inl e, w') \<Rightarrow> (None, w')
      | (Inr res, w') \<Rightarrow> (res, w'))"

section \<open>Document renderer\<close>

definition isTagChar :: "char \<Rightarrow> bool" where
  \<comment> \<open>the class \<open>[^\#\s]\<close>\<close>
  "isTagChar c = (c \<noteq> CHR ''#'' \<and> \<not> isWhiteSpace c)"

text \<open>
  \<open>content.replace(/\#([^\#\s]+)\#/g, '#$1')\<close>. At a \<open>#\<close> the greedy group takes the whole
  run of tag characters; the run stops at a \<open>#\<close>, at white space or at the end, so giving
  characters back cannot help, and the match succeeds exactly when the run is not empty
  and a \<open>#\<close> follows it. The scan goes on after the match.
\<close>

function rewriteTags :: "string \<Rightarrow> string" where
  "rewriteTags [] = []"
| "rewriteTags (c # cs) =
     (if c = CHR ''#'' then
        (case dropWhile isTagChar cs of
           [] \<Rightarrow> c # rewriteTags cs
         | d # rest \<Rightarrow>
             if takeWhile isTagChar cs \<noteq> [] \<and> d = CHR ''#''
             then CHR ''#'' # takeWhile isTagChar cs @ rewriteTags rest
             else c # rewriteTags cs)
      else c # rewriteTags cs)"
  by pat_completeness auto
termination
proof (relation "measure length")
  fix c :: char and cs d rest
  assume "dropWhile isTagChar cs = d # rest"
  then have "Suc (length rest) = length (dropWhile isTagChar cs)"
    by simp
  also have "\<dots> \<le> length cs"
    by (rule length_dropWhile_le)
  finally show "(rest, c # cs) \<in> measure length"
    by simp
qed auto

text \<open>
  \<open>content.match(/\#([^\#\s]+)(?:\#|\s|$)/g)\<close>: the matched texts, in order. After the run
  of tag characters comes a \<open>#\<close>, white space or the end, and each of them closes the match.
\<close>

function matchTags :: "string \<Rightarrow> string list" where
  "matchTags [] = []"
| "matchTags (c # cs) =
     (if c = CHR ''#'' \<and> takeWhile isTagChar cs \<noteq> [] then
        (case dropWhile isTagChar cs of
           [] \<Rightarrow> [c # takeWhile isTagChar cs]
         | d # rest \<Rightarrow> (c # takeWhile isTagChar cs @ [d]) # matchTags rest)
      else matchTags cs)"
  by pat_completeness auto
termination
proof (relation "measure length")
  fix c :: char and cs d rest
  assume "dropWhile isTagChar cs = d # rest"
  then have "Suc (length rest) = length (dropWhile isTagChar cs)"
    by simp
  also have "\<dots> \<le> length cs"
    by (rule length_dropWhile_le)
  finally show "(rest, c # cs) \<in> measure length"
    by simp
qed auto

definition stripHashes :: "string \<Rightarrow> string" where
  \<comment> \<open>\<open>tag.replace(/^\#|\#$/g, '')\<close>: a \<open>#\<close> at the start goes, and one at the end\<close>
  "stripHashes t =
     (let t1 = (case t of [] \<Rightarrow> [] | c # cs \<Rightarrow> if c = CHR ''#'' then cs else t)
      in if t1 \<noteq> [] \<and> last t1 = CHR ''#'' then butlast t1 else t1)"

definition cleanTags :: "string \<Rightarrow> string list" where
  "cleanTags raw = map (\<lambda>tag. trim (stripHashes tag)) (matchTags raw)"

fun appendLinks ::
  "host \<Rightarrow> MemosPluginSettings \<Rightarrow> string \<Rightarrow> string \<Rightarrow> string \<Rightarrow> resource list
     \<Rightarrow> string \<times> world \<Rightarrow> string \<times> world"
where
  \<comment> \<open>the two \<open>for\<close> loops over the resources; \<open>mark\<close> is \<open>!\<close> for the images and \<open>- \<close> for
      the other files. A local path is never the empty string, so it always counts as true.\<close>
  "appendLinks h s mark filePath monthDir [] (documentContent, w) = (documentContent, w)"
| "appendLinks h s mark filePath monthDir (r # rs) (documentContent, w) =
     (case downloadResource h s r monthDir w of
        (Some localPath, w') \<Rightarrow>
          appendLinks h s mark filePath monthDir rs
            (documentContent @ mark @ ''['' @ filename r @ '']('' @ getRelativePath filePath localPath
               @ '')'' @ [CHR 0x0A], w')
      | (None, w') \<Rightarrow> appendLinks h s mark filePath monthDir rs (documentContent, w'))"

definition yearDirOf :: "host \<Rightarrow> MemosPluginSettings \<Rightarrow> MemoItem \<Rightarrow> string" where
  \<comment> \<open>\<open>yearDir\<close> of \<open>saveMemoToFile\<close>\<close>
  "yearDirOf h s memo =
     (let date = newDate (createTime memo);
          year = getFullYear (tzMinutes h) date
      in syncDirectory s @ ''/'' @ String_of year)"

definition monthDirOf :: "host \<Rightarrow> MemosPluginSettings \<Rightarrow> MemoItem \<Rightarrow> string" where
  \<comment> \<open>\<open>monthDir\<close> of \<open>saveMemoToFile\<close>\<close>
  "monthDirOf h s memo =
     (let date = newDate (createTime memo);
          month = padStart 2 CHR ''0''
                    (String_of (map_option (\<lambda>m. m + 1) (getMonth (tzMinutes h) date)))
      in yearDirOf h s memo @ ''/'' @ month)"

definition contentPreviewOf :: "MemoItem \<Rightarrow> string" where
  \<comment> \<open>\<open>contentPreview\<close> of \<open>saveMemoToFile\<close>\<close>
  "contentPreviewOf memo =
     (if content memo \<noteq> [] then sanitizeFileName (take 50 (content memo))
      else sanitizeFileName (removeFirst ''memos/'' (name memo)))"

definition timeStrOf :: "host \<Rightarrow> MemoItem \<Rightarrow> string" where
  \<comment> \<open>\<open>timeStr\<close> of \<open>saveMemoToFile\<close>\<close>
  "timeStrOf h memo = formatDateTime (tzMinutes h) (newDate (createTime memo)) Filename"

definition fileNameOf :: "host \<Rightarrow> MemoItem \<Rightarrow> string" where
  \<comment> \<open>\<open>fileName\<close> of \<open>saveMemoToFile\<close>\<close>
  "fileNameOf h memo =
     sanitizeFileName (contentPreviewOf memo @ '' ('' @ timeStrOf h memo @ '').md'')"

definition properties :: "host \<Rightarrow> MemoItem \<Rightarrow> string" where
  \<comment> \<open>the metadata block\<close>
  "properties h memo =
     (let cleanTags = cleanTags (content memo)
      in [CHR 0x0A, CHR 0x0A] @ ''---'' @ [CHR 0x0A]
         @ ''> [!note]- Memo Properties'' @ [CHR 0x0A]
         @ ''> - Created: '' @ formatDateTime (tzMinutes h) (newDate (createTime memo)) Display
         @ [CHR 0x0A]
         @ ''> - Updated: '' @ formatDateTime (tzMinutes h) (newDate (updateTime memo)) Display
         @ [CHR 0x0A]
         @ ''> - Type: memo'' @ [CHR 0x0A]
         @ (if length cleanTags > 0
            then ''> - Tags: ['' @ join '', '' cleanTags @ '']'' @ [CHR 0x0A] else [])
         @ ''> - ID: '' @ name memo @ [CHR 0x0A]
         @ ''> - Visibility: '' @ toLowerCase (visibility memo) @ [CHR 0x0A])"

definition saveMemoToFile ::
  "host \<Rightarrow> MemosPluginSettings \<Rightarrow> MemoItem \<Rightarrow> world \<Rightarrow> (error + unit) \<times> world"
where
  "saveMemoToFile h s memo w =
     (let yearDir = yearDirOf h s memo;
          monthDir = monthDirOf h s memo;
          w1 = ensureDirectoryExists yearDir w;
          w2 = ensureDirectoryExists monthDir w1;
          fileName = fileNameOf h memo;
          filePath = monthDir @ ''/'' @ fileName;
          documentContent = rewriteTags (content memo);
          (documentContent, w3) =
            (if length (resources memo) > 0 then
               (let images = filter (\<lambda>r. isImageFile (filename r)) (resources memo);
                    otherFiles = filter (\<lambda>r. \<not> isImageFile (filename r)) (resources memo);
                    (doc1, wa) =
                      (if length images > 0
                       then appendLinks h s ''!'' filePath monthDir images
                              (documentContent @ [CHR 0x0A, CHR 0x0A], w2)
                       else (documentContent, w2))
                in if length otherFiles > 0
                   then appendLinks h s ''- '' filePath monthDir otherFiles
                          (doc1 @ [CHR 0x0A, CHR 0x0A] @ ''### Attachments'' @ [CHR 0x0A], wa)
                   else (doc1, wa))
             else (documentContent, w2));
          documentContent = documentContent @ properties h memo
      in case (if exists_path w3 filePath then vault_modify h filePath documentContent w3
               else vault_create h filePath documentContent w3) of
           Inl e \<Rightarrow> (Inl (SaveFailed e), w3)
         | Inr w4 \<Rightarrow> (Inr (), w4))"

section \<open>Sync orchestrator\<close>

fun saveAll ::
  "host \<Rightarrow> MemosPluginSettings \<Rightarrow> MemoItem list \<Rightarrow> nat \<Rightarrow> world \<Rightarrow> (error + nat) \<times> world"
where
  \<comment> \<open>the \<open>for\<close> loop of \<open>syncMemos\<close>, with its \<open>syncCount\<close>\<close>
  "saveAll h s [] syncCount w = (Inr syncCount, w)"
| "saveAll h s (memo # memos) syncCount w =
     (case saveMemoToFile h s memo w of
        (Inl e, w') \<Rightarrow> (Inl e, w')
      | (Inr u, w') \<Rightarrow> saveAll h s memos (Suc syncCount) w')"

definition syncMemos :: "host \<Rightarrow> MemosPluginSettings \<Rightarrow> world \<Rightarrow> world option" where
  "syncMemos h s w =
     (if memosApiUrl s = [] then Some (displayMessage (SyncFailed UrlNotConfigured) w)
      else if memosAccessToken s = []
      then Some (displayMessage (SyncFailed TokenNotConfigured) w)
      else (let w1 = displayMessage SyncStarted w;
                w2 = ensureDirectoryExists (syncDirectory s) w1
            in case fetchAllMemos h s w2 of
                 None \<Rightarrow> None
               | Some (Inl e, w3) \<Rightarrow> Some (displayMessage (SyncFailed e) w3)
               | Some (Inr memos, w3) \<Rightarrow>
                   (case saveAll h s memos 0 (displayMessage (Found (length memos)) w3) of
                      (Inl e, w4) \<Rightarrow> Some (displayMessage (SyncFailed e) w4)
                    | (Inr syncCount, w4) \<Rightarrow> Some (displayMessage (Synced syncCount) w4))))"

section \<open>Vocabulary of the proofs\<close>

text \<open>A string whose white space is single spaces only: what \<open>collapseWs\<close> leaves.\<close>

fun spaced :: "string \<Rightarrow> bool" where
  "spaced [] = True"
| "spaced [c] = (isWhiteSpace c \<longrightarrow> c = CHR '' '')"
| "spaced (c # d # cs) = ((isWhiteSpace c \<longrightarrow> c = CHR '' '' \<and> \<not> isWhiteSpace d) \<and> spaced (d # cs))"


text \<open>At the text after a \<open>#\<close>: a tag and its closing \<open>#\<close> come next.\<close>

definition closesTag :: "string \<Rightarrow> bool" where
  "closesTag cs =
     (takeWhile isTagChar cs \<noteq> []
      \<and> (case dropWhile isTagChar cs of [] \<Rightarrow> False | d # rest \<Rightarrow> d = CHR ''#''))"

text \<open>Fixtures: a record with the fields a scenario sets, and a host in the zone of UTC.\<close>

definition memoOf :: "string \<Rightarrow> string \<Rightarrow> string \<Rightarrow> resource list \<Rightarrow> MemoItem" where
  "memoOf nm text created res =
     \<lparr>name = nm, uid = ''u1'', content = text, visibility = ''PRIVATE'',
      createTime = created, updateTime = created, displayTime = created,
      creator = ''users/1'', rowStatus = ''NORMAL'', pinned = False,
      resources = res, tags = []\<rparr>"

definition utcHost ::
  "(string \<Rightarrow> string option \<Rightarrow> MemosResponse response) \<Rightarrow> (string \<Rightarrow> string response) \<Rightarrow> host"
where
  "utcHost pages blobs =
     \<lparr>tzMinutes = 0, fetchPage = pages, fetchFile = blobs, writeFails = (\<lambda>p. False)\<rparr>"

definition plainChar :: "char \<Rightarrow> bool" where
  "plainChar c = (\<not> isWhiteSpace c \<and> \<not> isReserved c)"

definition offlineHost :: host where
  "offlineHost = utcHost (\<lambda>url offset. Threw FailedToFetch) (\<lambda>url. Threw FailedToFetch)"

definition emptyWorld :: world where
  "emptyWorld = \<lparr>files = Map.empty, folders = {}, netlog = [], notices = []\<rparr>"

definition settingsOf :: "string \<Rightarrow> string \<Rightarrow> MemosPluginSettings" where
  \<comment> \<open>the default settings with a URL and a token\<close>
  "settingsOf url token = DEFAULT_SETTINGS\<lparr>memosApiUrl := url, memosAccessToken := token\<rparr>"

definition resourceUrlOf :: "MemosPluginSettings \<Rightarrow> resource \<Rightarrow> string" where
  \<comment> \<open>\<open>resourceUrl\<close> of \<open>downloadResource\<close>\<close>
  "resourceUrlOf s r =
     removeFirst ''/api/v1'' (memosApiUrl s) @ ''/file/resources/''
       @ resourceIdOf r @ ''/'' @ encodeURIComponent (filename r)"

definition present :: "host \<Rightarrow> MemosPluginSettings \<Rightarrow> world \<Rightarrow> MemoItem \<Rightarrow> bool" where
  \<comment> \<open>every resource of the record has its local file\<close>
  "present h s w memo =
     list_all (\<lambda>r. exists_path w (localPathOf r (monthDirOf h s memo))) (resources memo)"

definition linkLine :: "string \<Rightarrow> resource \<Rightarrow> string" where
  \<comment> \<open>the line of a resource in a document: its file name, and its local file beside the
      document\<close>
  "linkLine mark r =
     mark @ ''['' @ filename r @ '']('' @ ''resources/'' @ resourceIdOf r @ ''_''
       @ sanitizeFileName (filename r) @ '')'' @ [CHR 0x0A]"

definition filePathOf :: "host \<Rightarrow> MemosPluginSettings \<Rightarrow> MemoItem \<Rightarrow> string" where
  \<comment> \<open>\<open>filePath\<close> of \<open>saveMemoToFile\<close>\<close>
  "filePathOf h s memo = monthDirOf h s memo @ ''/'' @ fileNameOf h memo"

definition failsToFetch :: "host \<Rightarrow> MemosPluginSettings \<Rightarrow> resource \<Rightarrow> bool" where
  \<comment> \<open>the download is answered by an error of the transport or by a status that is not 2xx\<close>
  "failsToFetch h s r =
     (case fetchFile h (resourceUrlOf s r) of Threw e \<Rightarrow> True | Resp status buffer \<Rightarrow> \<not> ok status)"

definition fetchable :: "host \<Rightarrow> MemosPluginSettings \<Rightarrow> string \<Rightarrow> resource \<Rightarrow> bool" where
  \<comment> \<open>the download is answered with a 2xx status and the host accepts the local file\<close>
  "fetchable h s dir r =
     ((case fetchFile h (resourceUrlOf s r) of Threw e \<Rightarrow> False | Resp status buffer \<Rightarrow> ok status)
      \<and> \<not> writeFails h (localPathOf r dir))"

definition images :: "MemoItem \<Rightarrow> resource list" where
  "images memo = filter (\<lambda>r. isImageFile (filename r)) (resources memo)"

definition otherFiles :: "MemoItem \<Rightarrow> resource list" where
  "otherFiles memo = filter (\<lambda>r. \<not> isImageFile (filename r)) (resources memo)"

definition documentOf :: "host \<Rightarrow> MemoItem \<Rightarrow> resource list \<Rightarrow> resource list \<Rightarrow> string" where
  \<comment> \<open>the document of a record whose linked images are \<open>imgs\<close> and whose linked other
      files are \<open>others\<close>\<close>
  "documentOf h memo imgs others =
     rewriteTags (content memo)
     @ (if images memo \<noteq> [] then [CHR 0x0A, CHR 0x0A] @ concat (map (linkLine ''!'') imgs) else [])
     @ (if otherFiles memo \<noteq> []
        then [CHR 0x0A, CHR 0x0A] @ ''### Attachments'' @ [CHR 0x0A]
             @ concat (map (linkLine ''- '') others)
        else [])
     @ properties h memo"

text \<open>
  The scenario of the specification: one record with the content \<open>Meeting notes #work#\<close>, the
  image \<open>photo.jpg\<close> and the creation time 2024-03-15T10:30:00Z, on a remote that serves it
  in one page and serves every file.
\<close>

definition photo :: resource where
  "photo = \<lparr>rname = ''resources/r7'', ruid = ''u7'', filename = ''photo.jpg'',
            rtype = ''image/jpeg'', rsize = ''4'', rcreateTime = ''2024-03-15T10:30:00Z''\<rparr>"

definition meeting :: MemoItem where
  "meeting = memoOf ''memos/42'' ''Meeting notes #work#'' ''2024-03-15T10:30:00Z'' [photo]"

definition servingHost :: host where
  "servingHost =
     utcHost (\<lambda>url offset. Resp 200 (Json (Some [meeting]) None)) (\<lambda>url. Resp 200 ''JPEG'')"

definition scenarioSettings :: MemosPluginSettings where
  "scenarioSettings = settingsOf ''https://memos.example/api/v1'' ''token''"








section \<open>File names\<close>

lemma space_white: "isWhiteSpace (CHR '' '')"
  by (simp add: isWhiteSpace_def)

lemma collapseWs_hd_white:
  "collapseWs ys = z # zs \<Longrightarrow> isWhiteSpace z = isWhiteSpace (hd ys)"
  by (cases ys) (auto simp: space_white split: if_splits)

lemma collapseWs_Nil_iff: "collapseWs ys = [] \<longleftrightarrow> ys = []"
  by (cases ys) auto

lemma spaced_Cons_nonwhite: "\<not> isWhiteSpace c \<Longrightarrow> spaced (c # cs) = spaced cs"
  by (cases cs) auto

lemma spaced_space_Cons:
  "spaced (CHR '' '' # cs) = (spaced cs \<and> (cs = [] \<or> \<not> isWhiteSpace (hd cs)))"
  by (cases cs) (auto simp: space_white)

lemma spaced_collapseWs: "spaced (collapseWs xs)"
proof (induction xs rule: collapseWs.induct)
  case 1
  show ?case by simp
next
  case (2 c cs)
  show ?case
  proof (cases "isWhiteSpace c")
    case True
    let ?r = "collapseWs (dropWhile isWhiteSpace cs)"
    have sp: "spaced ?r" using 2(1) True by simp
    have "?r = [] \<or> \<not> isWhiteSpace (hd ?r)"
    proof (cases ?r)
      case Nil then show ?thesis by simp
    next
      case (Cons z zs)
      then have "isWhiteSpace z = isWhiteSpace (hd (dropWhile isWhiteSpace cs))"
        by (rule collapseWs_hd_white)
      moreover have "dropWhile isWhiteSpace cs \<noteq> []"
      proof
        assume "dropWhile isWhiteSpace cs = []"
        then have "collapseWs (dropWhile isWhiteSpace cs) = []" by (simp only: collapseWs.simps)
        with Cons show False by simp
      qed
      ultimately show ?thesis using Cons hd_dropWhile[of isWhiteSpace cs] by simp
    qed
    with sp True show ?thesis by (simp add: spaced_space_Cons)
  next
    case False
    with 2(2) show ?thesis by (simp add: spaced_Cons_nonwhite)
  qed
qed

lemma spaced_fixed: "spaced xs \<Longrightarrow> collapseWs xs = xs"
proof (induction xs rule: spaced.induct)
  case 1 show ?case by simp
next
  case (2 c) then show ?case by simp
next
  case (3 c d cs)
  then show ?case by (cases "isWhiteSpace c") auto
qed

lemma spaced_append: "spaced (xs @ ys) \<Longrightarrow> spaced xs \<and> spaced ys"
proof (induction xs rule: spaced.induct)
  case 1 then show ?case by simp
next
  case (2 c) then show ?case by (cases ys) auto
next
  case (3 c d cs) then show ?case by auto
qed

lemma rev_dropWhile_rev_split:
  "rev (dropWhile P (rev ys)) @ rev (takeWhile P (rev ys)) = ys"
proof -
  have "rev (takeWhile P (rev ys) @ dropWhile P (rev ys)) = ys" by simp
  then show ?thesis by (simp only: rev_append)
qed

lemma spaced_dropWhile: "spaced xs \<Longrightarrow> spaced (dropWhile P xs)"
  using spaced_append[of "takeWhile P xs" "dropWhile P xs"] by simp

lemma spaced_rev_dropWhile_rev: "spaced ys \<Longrightarrow> spaced (rev (dropWhile P (rev ys)))"
  using spaced_append[of "rev (dropWhile P (rev ys))" "rev (takeWhile P (rev ys))"]
  by (simp only: rev_dropWhile_rev_split)

lemma spaced_trim: "spaced xs \<Longrightarrow> spaced (trim xs)"
  unfolding trim_def by (intro spaced_rev_dropWhile_rev spaced_dropWhile)

lemma dropWhile_rev_dropWhile_rev:
  "dropWhile P (rev (dropWhile P (rev (dropWhile P xs)))) = rev (dropWhile P (rev (dropWhile P xs)))"
proof (cases "rev (dropWhile P (rev (dropWhile P xs)))")
  case Nil
  then show ?thesis by (simp only: dropWhile.simps)
next
  case (Cons b bs)
  have sp: "(b # bs) @ rev (takeWhile P (rev (dropWhile P xs))) = dropWhile P xs"
    using rev_dropWhile_rev_split[of P "dropWhile P xs"] by (simp only: Cons)
  have ne: "dropWhile P xs \<noteq> []"
  proof
    assume e: "dropWhile P xs = []"
    show False using sp unfolding e by simp
  qed
  from sp have "hd (dropWhile P xs) = b" by (metis append_Cons list.sel(1))
  with hd_dropWhile[OF ne] have "\<not> P b" by simp
  then show ?thesis by (simp only: Cons dropWhile.simps if_False)
qed

lemma trim_idem: "trim (trim xs) = trim xs"
  by (simp add: trim_def dropWhile_rev_dropWhile_rev)

lemma set_collapseWs: "set (collapseWs xs) \<subseteq> insert (CHR '' '') (set xs)"
proof (induction xs rule: collapseWs.induct)
  case 1 show ?case by simp
next
  case (2 c cs)
  have "set (dropWhile isWhiteSpace cs) \<subseteq> set cs" by (auto dest: set_dropWhileD)
  with 2 show ?case by (cases "isWhiteSpace c") auto
qed

lemma set_trim: "set (trim xs) \<subseteq> set xs"
proof
  fix c assume "c \<in> set (trim xs)"
  then have "c \<in> set (dropWhile isWhiteSpace (rev (dropWhile isWhiteSpace xs)))"
    by (simp add: trim_def)
  then have "c \<in> set (rev (dropWhile isWhiteSpace xs))" by (rule set_dropWhileD)
  then have "c \<in> set (dropWhile isWhiteSpace xs)" by simp
  then show "c \<in> set xs" by (rule set_dropWhileD)
qed

lemma replaceReserved_id: "\<forall>c\<in>set xs. \<not> isReserved c \<Longrightarrow> replaceReserved xs = xs"
  by (induction xs) (auto simp: replaceReserved_def)

lemma underscore_space_free: "\<not> isReserved (CHR ''_'')" "\<not> isReserved (CHR '' '')"
  by (simp_all add: isReserved_def)

lemma replaceReserved_free: "c \<in> set (replaceReserved xs) \<Longrightarrow> \<not> isReserved c"
proof -
  assume "c \<in> set (replaceReserved xs)"
  then have "c \<in> (\<lambda>c. if isReserved c then CHR ''_'' else c) ` set xs"
    by (simp only: replaceReserved_def set_map)
  then obtain d where "c = (if isReserved d then CHR ''_'' else d)"
    by (rule imageE)
  then show ?thesis by (cases "isReserved d") (simp_all add: underscore_space_free)
qed

lemma sanitize_free: "c \<in> set (sanitizeFileName s) \<Longrightarrow> \<not> isReserved c"
proof -
  assume "c \<in> set (sanitizeFileName s)"
  then have "c \<in> set (collapseWs (replaceReserved s))"
    unfolding sanitizeFileName_def using set_trim by blast
  then have "c = CHR '' '' \<or> c \<in> set (replaceReserved s)"
    using set_collapseWs by blast
  then show ?thesis using replaceReserved_free underscore_space_free by blast
qed

text \<open>
  Claim C10. \<open>sanitizeFileName\<close> is idempotent: sanitizing a sanitized name changes nothing.
  \<open>saveMemoToFile\<close> relies on it when it sanitizes the assembled file name, whose preview
  part has been sanitized before.
\<close>

theorem sanitizeFileName_idempotent:
  "sanitizeFileName (sanitizeFileName s) = sanitizeFileName s"
proof -
  let ?t = "sanitizeFileName s"
  have r: "replaceReserved ?t = ?t"
    by (rule replaceReserved_id) (auto dest: sanitize_free)
  have "spaced ?t"
    unfolding sanitizeFileName_def by (rule spaced_trim) (rule spaced_collapseWs)
  then have c: "collapseWs ?t = ?t" by (rule spaced_fixed)
  have "sanitizeFileName ?t = trim ?t"
    by (simp add: sanitizeFileName_def[of ?t] r c)
  also have "\<dots> = ?t" by (simp add: sanitizeFileName_def trim_idem)
  finally show ?thesis .
qed

section \<open>Relative paths\<close>

lemma commonLoop_lcp:
  "i \<le> length xs \<Longrightarrow> i \<le> length ys \<Longrightarrow>
   commonLoop xs ys i = i + length (longest_common_prefix (drop i xs) (drop i ys))"
proof (induction xs ys i rule: commonLoop.induct)
  case (1 xs ys i)
  show ?case
  proof (cases "i < length xs \<and> i < length ys \<and> xs ! i = ys ! i")
    case True
    then have lx: "i < length xs" and ly: "i < length ys" and eq: "xs ! i = ys ! i"
      by simp_all
    have dx: "drop i xs = xs ! i # drop (Suc i) xs"
      using lx by (simp add: Cons_nth_drop_Suc)
    have dy: "drop i ys = ys ! i # drop (Suc i) ys"
      using ly by (simp add: Cons_nth_drop_Suc)
    have "commonLoop xs ys i = commonLoop xs ys (Suc i)"
      by (subst commonLoop.simps) (simp add: lx ly eq)
    also have "\<dots> = Suc i + length (longest_common_prefix (drop (Suc i) xs) (drop (Suc i) ys))"
      using 1 True by simp
    finally show ?thesis using eq by (simp add: dx dy)
  next
    case False
    have c: "commonLoop xs ys i = i"
      by (subst commonLoop.simps) (simp only: False if_False)
    have "longest_common_prefix (drop i xs) (drop i ys) = []"
    proof (cases "i < length xs \<and> i < length ys")
      case True
      with False have ne: "xs ! i \<noteq> ys ! i" by simp
      from True have "drop i xs = xs ! i # drop (Suc i) xs" "drop i ys = ys ! i # drop (Suc i) ys"
        by (simp_all add: Cons_nth_drop_Suc)
      with ne show ?thesis by simp
    next
      case False
      then have "drop i xs = [] \<or> drop i ys = []" by auto
      then show ?thesis by auto
    qed
    with c show ?thesis by simp
  qed
qed

lemma getRelativePath_lcp:
  "getRelativePath fromPath toPath =
     (let fromDir = butlast (split CHR ''/'' fromPath);
          toParts = split CHR ''/'' toPath;
          common = longest_common_prefix fromDir toParts
      in join ''/'' (replicate (length fromDir - length common) ''..''
                      @ drop (length common) toParts))"
  by (simp add: getRelativePath_def Let_def commonLoop_lcp)



section \<open>Tag normalization\<close>




lemma rewriteTags_Cons:
  "rewriteTags (c # cs) =
     (if c = CHR ''#'' \<and> closesTag cs
      then CHR ''#'' # takeWhile isTagChar cs @ rewriteTags (tl (dropWhile isTagChar cs))
      else c # rewriteTags cs)"
  by (cases "dropWhile isTagChar cs") (simp_all add: closesTag_def del: dropWhile_eq_Nil_conv)








lemma rewriteTags_nohash: "CHR ''#'' \<notin> set s \<Longrightarrow> rewriteTags s = s"
  by (induction s) (auto simp: rewriteTags_Cons simp del: rewriteTags.simps(2))






section \<open>File names and time stamps\<close>

lemma collapseWs_nonwhite: "\<forall>c\<in>set xs. \<not> isWhiteSpace c \<Longrightarrow> collapseWs xs = xs"
  by (induction xs) auto

lemma collapseWs_append_nonwhite:
  "\<not> isWhiteSpace c \<Longrightarrow> collapseWs (xs @ c # ys) = collapseWs xs @ c # collapseWs ys"
proof (induction xs rule: collapseWs.induct)
  case 1
  then show ?case by simp
next
  case (2 d ds)
  show ?case
  proof (cases "isWhiteSpace d")
    case True
    have "dropWhile isWhiteSpace (ds @ c # ys) = dropWhile isWhiteSpace ds @ c # ys"
      using 2(3) by (induction ds) auto
    with 2 True show ?thesis by simp
  next
    case False
    with 2 show ?thesis by simp
  qed
qed

lemma dropWhile_append_stop: "\<not> P z \<Longrightarrow> dropWhile P (xs @ z # ys) = dropWhile P xs @ z # ys"
  by (induction xs) auto

lemma rev_dropWhile_rev_last: "\<not> P z \<Longrightarrow> rev (dropWhile P (rev (xs @ [z]))) = xs @ [z]"
  by simp

lemma trim_bracketed:
  "\<not> isWhiteSpace a \<Longrightarrow> \<not> isWhiteSpace z \<Longrightarrow>
   trim (xs @ a # ys @ [z]) = dropWhile isWhiteSpace xs @ a # ys @ [z]"
proof -
  assume a: "\<not> isWhiteSpace a" and z: "\<not> isWhiteSpace z"
  have "dropWhile isWhiteSpace (xs @ a # ys @ [z]) = dropWhile isWhiteSpace xs @ a # ys @ [z]"
    using a by (rule dropWhile_append_stop)
  moreover have "rev (dropWhile isWhiteSpace (rev ((dropWhile isWhiteSpace xs @ a # ys) @ [z])))
                  = (dropWhile isWhiteSpace xs @ a # ys) @ [z]"
    using z by (rule rev_dropWhile_rev_last)
  ultimately show ?thesis by (simp add: trim_def)
qed

lemma replaceReserved_append: "replaceReserved (xs @ ys) = replaceReserved xs @ replaceReserved ys"
  by (simp add: replaceReserved_def)

lemma replaceReserved_Cons:
  "replaceReserved [] = []"
  "replaceReserved (c # cs) = (if isReserved c then CHR ''_'' else c) # replaceReserved cs"
  by (simp_all add: replaceReserved_def)

lemma fixed_chars:
  "\<not> isWhiteSpace (CHR ''('')" "\<not> isWhiteSpace (CHR '')'')" "\<not> isWhiteSpace (CHR ''.'')"
  "\<not> isWhiteSpace (CHR ''m'')" "\<not> isWhiteSpace (CHR ''d'')"
  "\<not> isReserved (CHR ''('')" "\<not> isReserved (CHR '')'')" "\<not> isReserved (CHR ''.'')"
  "\<not> isReserved (CHR ''m'')" "\<not> isReserved (CHR ''d'')" "\<not> isReserved (CHR '' '')"
  by (simp_all add: isWhiteSpace_def isReserved_def)

lemma sanitize_name_form:
  assumes r: "\<forall>c\<in>set t. \<not> isReserved c" and c: "collapseWs t = t"
  shows "sanitizeFileName (p @ '' ('' @ t @ '').md'')
           = dropWhile isWhiteSpace (collapseWs (replaceReserved p @ '' '')) @ ''('' @ t @ '').md''"
proof -
  have rt: "replaceReserved t = t" using r by (rule replaceReserved_id)
  have rep: "replaceReserved (p @ CHR '' '' # CHR ''('' # t @ '').md'')
               = replaceReserved p @ CHR '' '' # CHR ''('' # t @ '').md''"
    by (simp add: replaceReserved_append replaceReserved_Cons rt fixed_chars)
  have A: "collapseWs ((replaceReserved p @ '' '') @ CHR ''('' # (t @ '').md''))
          = collapseWs (replaceReserved p @ '' '') @ CHR ''('' # collapseWs (t @ '').md'')"
    by (rule collapseWs_append_nonwhite) (rule fixed_chars)
  have B: "collapseWs (t @ CHR '')'' # ''.md'') = t @ CHR '')'' # ''.md''"
    by (simp add: collapseWs_append_nonwhite fixed_chars c)
  have col: "collapseWs (replaceReserved (p @ '' ('' @ t @ '').md''))
          = collapseWs (replaceReserved p @ '' '') @ CHR ''('' # (t @ '').m'') @ [CHR ''d'']"
    using A B by (simp add: rep)
  show ?thesis
    unfolding sanitizeFileName_def col
    by (subst trim_bracketed) (simp_all add: fixed_chars)
qed

lemma digitChar_plain: "d < 10 \<Longrightarrow> plainChar (digitChar d)"
proof -
  assume "d < 10"
  then have "d = 0 \<or> d = 1 \<or> d = 2 \<or> d = 3 \<or> d = 4 \<or> d = 5 \<or> d = 6 \<or> d = 7 \<or> d = 8 \<or> d = 9"
    by arith
  then show ?thesis
    by (elim disjE) (simp_all add: plainChar_def digitChar_def isWhiteSpace_def isReserved_def char_of_def)
qed

lemma showNat_plain: "list_all plainChar (showNat n)"
proof (induction n rule: showNat.induct)
  case (1 n)
  show ?case
  proof (cases "n < 10")
    case True
    then show ?thesis by (subst showNat.simps) (simp add: digitChar_plain)
  next
    case False
    then have "list_all plainChar (showNat (n div 10))" by (rule 1)
    moreover have "plainChar (digitChar (n mod 10))" by (rule digitChar_plain) simp
    ultimately show ?thesis using False by (subst showNat.simps) simp
  qed
qed

lemma String_of_plain: "list_all plainChar (String_of x)"
proof (cases x)
  case None
  then show ?thesis
    by (simp add: String_of_def plainChar_def isWhiteSpace_def isReserved_def)
next
  case (Some i)
  have "plainChar (CHR ''-'')" by (simp add: plainChar_def isWhiteSpace_def isReserved_def)
  then show ?thesis using Some by (simp add: String_of_def showNat_plain)
qed

lemma padStart_plain: "list_all plainChar s \<Longrightarrow> list_all plainChar (padStart n (CHR ''0'') s)"
proof -
  assume s: "list_all plainChar s"
  have "plainChar (CHR ''0'')" by (simp add: plainChar_def isWhiteSpace_def isReserved_def)
  then show ?thesis using s by (auto simp: padStart_def list_all_iff)
qed

lemma timeStr_form:
  "\<exists>xs ys. formatDateTime tz d Filename = xs @ CHR '' '' # ys
            \<and> list_all plainChar xs \<and> list_all plainChar ys"
proof -
  let ?y = "String_of (getFullYear tz d)"
  let ?mo = "padStart 2 CHR ''0'' (String_of (map_option (\<lambda>m. m + 1) (getMonth tz d)))"
  let ?d = "padStart 2 CHR ''0'' (String_of (getDate tz d))"
  let ?h = "padStart 2 CHR ''0'' (String_of (getHours tz d))"
  let ?mi = "padStart 2 CHR ''0'' (String_of (getMinutes tz d))"
  have dash: "plainChar (CHR ''-'')" by (simp add: plainChar_def isWhiteSpace_def isReserved_def)
  have e: "formatDateTime tz d Filename = (?y @ ''-'' @ ?mo @ ''-'' @ ?d) @ CHR '' '' # (?h @ ''-'' @ ?mi)"
    by (simp add: formatDateTime_def Let_def)
  have "list_all plainChar (?y @ ''-'' @ ?mo @ ''-'' @ ?d)"
    by (simp add: String_of_plain padStart_plain dash)
  moreover have "list_all plainChar (?h @ ''-'' @ ?mi)"
    by (simp add: String_of_plain padStart_plain dash)
  ultimately show ?thesis using e by blast
qed

lemma collapseWs_plain_append:
  "list_all plainChar xs \<Longrightarrow> collapseWs (xs @ ys) = xs @ collapseWs ys"
  by (induction xs) (simp_all add: plainChar_def)

lemma collapseWs_plain: "list_all plainChar xs \<Longrightarrow> collapseWs xs = xs"
  using collapseWs_plain_append[of xs "[]"] by simp

lemma timeStr_stable:
  "(\<forall>c\<in>set (formatDateTime tz d Filename). \<not> isReserved c)
   \<and> collapseWs (formatDateTime tz d Filename) = formatDateTime tz d Filename"
proof -
  obtain xs ys where e: "formatDateTime tz d Filename = xs @ CHR '' '' # ys"
    and xs: "list_all plainChar xs" and ys: "list_all plainChar ys"
    using timeStr_form by blast
  have "dropWhile isWhiteSpace ys = ys"
    using ys by (cases ys) (simp_all add: plainChar_def)
  then have "collapseWs (CHR '' '' # ys) = CHR '' '' # ys"
    using ys by (simp add: collapseWs_plain isWhiteSpace_def)
  then have "collapseWs (xs @ CHR '' '' # ys) = xs @ CHR '' '' # ys"
    using xs by (simp only: collapseWs_plain_append)
  moreover have "\<forall>c\<in>set (xs @ CHR '' '' # ys). \<not> isReserved c"
    using xs ys by (auto simp: list_all_iff plainChar_def isReserved_def)
  ultimately show ?thesis unfolding e by blast
qed

lemma fileNameOf_form:
  "fileNameOf h memo
     = dropWhile isWhiteSpace (collapseWs (replaceReserved (contentPreviewOf memo) @ '' ''))
       @ ''('' @ timeStrOf h memo @ '').md''"
proof -
  let ?t = "formatDateTime (tzMinutes h) (newDate (createTime memo)) Filename"
  have r: "\<forall>c\<in>set ?t. \<not> isReserved c" using timeStr_stable by blast
  have c: "collapseWs ?t = ?t" using timeStr_stable by blast
  show ?thesis unfolding fileNameOf_def timeStrOf_def by (rule sanitize_name_form[OF r c])
qed




section \<open>Configuration errors\<close>

lemma ensureDirectoryExists_fields [simp]:
  "files (ensureDirectoryExists d w) = files w"
  "netlog (ensureDirectoryExists d w) = netlog w"
  "notices (ensureDirectoryExists d w) = notices w"
  "folders (ensureDirectoryExists d w) = (if exists_path w d then folders w else insert d (folders w))"
  by (simp_all add: ensureDirectoryExists_def mkdir_def)

lemma displayMessage_fields [simp]:
  "files (displayMessage n w) = files w"
  "netlog (displayMessage n w) = netlog w"
  "folders (displayMessage n w) = folders w"
  "notices (displayMessage n w) = notices w @ [n]"
  by (simp_all add: displayMessage_def)

text \<open>
  Claim C9. A sync without a URL or without a token ends with the notice of the
  configuration error and leaves the files, the folders and the network alone. A sync
  whose URL lacks \<open>/api/v1\<close> ends with the notice of that error and has sent no request.
\<close>

theorem syncMemos_configuration_errors:
  "(memosApiUrl s = [] \<or> memosAccessToken s = [] \<longrightarrow>
      (\<exists>w'. syncMemos h s w = Some w'
            \<and> notices w' = notices w
                 @ [SyncFailed (if memosApiUrl s = [] then UrlNotConfigured else TokenNotConfigured)]
            \<and> files w' = files w \<and> folders w' = folders w \<and> netlog w' = netlog w))
   \<and> (memosApiUrl s \<noteq> [] \<and> memosAccessToken s \<noteq> []
        \<and> \<not> includesStr ''/api/v1'' (memosApiUrl s) \<longrightarrow>
      (\<exists>w'. syncMemos h s w = Some w'
            \<and> notices w' = notices w @ [SyncStarted, SyncFailed ApiUrlFormat]
            \<and> files w' = files w \<and> netlog w' = netlog w))"
  by (simp add: syncMemos_def fetchAllMemos_def Let_def)

theorem syncMemos_configuration_errors_witness:
  "(memosApiUrl (settingsOf [] ''token'') = [] \<or> memosAccessToken (settingsOf [] ''token'') = [])
   \<and> map_option notices (syncMemos offlineHost (settingsOf [] ''token'') emptyWorld)
       = Some [SyncFailed UrlNotConfigured]
   \<and> map_option netlog (syncMemos offlineHost (settingsOf [] ''token'') emptyWorld) = Some []
   \<and> memosApiUrl (settingsOf ''https://memos.example'' ''token'') \<noteq> []
   \<and> memosAccessToken (settingsOf ''https://memos.example'' ''token'') \<noteq> []
   \<and> \<not> includesStr ''/api/v1'' (memosApiUrl (settingsOf ''https://memos.example'' ''token''))
   \<and> map_option notices (syncMemos offlineHost (settingsOf ''https://memos.example'' ''token'') emptyWorld)
       = Some [SyncStarted, SyncFailed ApiUrlFormat]
   \<and> map_option netlog (syncMemos offlineHost (settingsOf ''https://memos.example'' ''token'') emptyWorld)
       = Some []"
proof -
  have u: "memosApiUrl (settingsOf [] ''token'') = []"
    by (simp add: settingsOf_def)
  have v: "memosApiUrl (settingsOf ''https://memos.example'' ''token'') \<noteq> []
           \<and> memosAccessToken (settingsOf ''https://memos.example'' ''token'') \<noteq> []
           \<and> \<not> includesStr ''/api/v1'' (memosApiUrl (settingsOf ''https://memos.example'' ''token''))"
    by (simp add: settingsOf_def)
  show ?thesis
    using syncMemos_configuration_errors[of "settingsOf [] ''token''" offlineHost emptyWorld]
      syncMemos_configuration_errors[of "settingsOf ''https://memos.example'' ''token''" offlineHost emptyWorld]
      u v
    by (auto simp: emptyWorld_def)
qed

section \<open>Resource downloads\<close>

lemma exists_path_simps [simp]:
  "exists_path (ensureDirectoryExists d w) p = (exists_path w p \<or> p = d)"
  "exists_path (send q w) p = exists_path w p"
  "exists_path (putFile f b w) p = (exists_path w p \<or> p = f)"
  "exists_path (displayMessage n w) p = exists_path w p"
  by (auto simp: exists_path_def ensureDirectoryExists_def mkdir_def send_def putFile_def
      displayMessage_def)

lemma send_fields [simp]:
  "files (send q w) = files w"
  "folders (send q w) = folders w"
  "notices (send q w) = notices w"
  "netlog (send q w) = netlog w @ [q]"
  by (simp_all add: send_def)

lemma putFile_fields [simp]:
  "files (putFile f b w) = (files w)(f \<mapsto> b)"
  "folders (putFile f b w) = folders w"
  "notices (putFile f b w) = notices w"
  "netlog (putFile f b w) = netlog w"
  by (simp_all add: putFile_def)

lemma ensureDirectoryExists_idem:
  "exists_path w d \<Longrightarrow> ensureDirectoryExists d w = w"
  by (simp add: ensureDirectoryExists_def)

lemma downloadResource_unfold:
  "downloadResource h s r dir w =
     (let w1 = ensureDirectoryExists (dir @ ''/resources'') w;
          p = localPathOf r dir
      in if exists_path w1 p then (Some p, w1)
         else (case fetchFile h (resourceUrlOf s r) of
                 Threw e \<Rightarrow> (None, send (GetFile (resourceUrlOf s r)) w1)
               | Resp status buffer \<Rightarrow>
                   if ok status \<and> \<not> writeFails h p
                   then (Some p, putFile p buffer (send (GetFile (resourceUrlOf s r)) w1))
                   else (None, send (GetFile (resourceUrlOf s r)) w1)))"
  by (simp add: downloadResource_def downloadResource_try_def localPathOf_def resourceUrlOf_def
      writeBinary_def Let_def split: response.splits)

lemma localPath_not_resourceDir: "localPathOf r dir \<noteq> dir @ ''/resources''"
  by (simp add: localPathOf_def)

lemma downloadResource_existing:
  assumes "exists_path w (localPathOf r dir)"
  shows "downloadResource h s r dir w
           = (Some (localPathOf r dir), ensureDirectoryExists (dir @ ''/resources'') w)"
  using assms by (simp add: downloadResource_unfold Let_def)

lemma downloadResource_Some:
  assumes "downloadResource h s r dir w = (Some p, w')"
  shows "p = localPathOf r dir \<and> exists_path w' p \<and> exists_path w' (dir @ ''/resources'')"
  using assms
  by (auto simp: downloadResource_unfold Let_def split: if_splits response.splits)

lemma downloadResource_again:
  assumes "downloadResource h s r dir w = (Some p, w')"
  shows "downloadResource h' s' r dir w' = (Some p, w')"
proof -
  from downloadResource_Some[OF assms]
  have p: "p = localPathOf r dir" and e: "exists_path w' p"
    and d: "exists_path w' (dir @ ''/resources'')" by blast+
  show ?thesis
    using e unfolding p by (simp add: downloadResource_existing ensureDirectoryExists_idem[OF d])
qed

lemma downloadResource_mono:
  assumes "downloadResource h s r dir w = (res, w')" and "exists_path w q"
  shows "exists_path w' q"
  using assms
  by (auto simp: downloadResource_unfold Let_def split: if_splits response.splits)
section \<open>Links from a document to its resources\<close>

lemma split_nonempty: "split sep s \<noteq> []"
  by (induction s) (auto split: list.splits)

lemma split_Cons_other:
  "c \<noteq> sep \<Longrightarrow> split sep (c # cs) = (c # hd (split sep cs)) # tl (split sep cs)"
  using split_nonempty[of sep cs] by (cases "split sep cs") simp_all

lemma split_append_sep: "split sep (a @ sep # b) = split sep a @ split sep b"
proof (induction a)
  case Nil
  show ?case by simp
next
  case (Cons c a)
  show ?case
  proof (cases "c = sep")
    case True
    with Cons show ?thesis by simp
  next
    case False
    obtain p ps where e: "split sep a = p # ps"
      using split_nonempty[of sep a] by (cases "split sep a") auto
    with Cons False show ?thesis by simp
  qed
qed

lemma split_nosep: "sep \<notin> set s \<Longrightarrow> split sep s = [s]"
  by (induction s) auto

lemma join_Cons: "join sep (p # ps) = p @ (if ps = [] then [] else sep @ join sep ps)"
  by (cases ps) simp_all

lemma join_split: "join [sep] (split sep s) = s"
proof (induction s)
  case Nil
  show ?case by simp
next
  case (Cons c s)
  obtain p ps where e: "split sep s = p # ps"
    using split_nonempty[of sep s] by (cases "split sep s") auto
  show ?case
  proof (cases "c = sep")
    case True
    with Cons e show ?thesis by simp
  next
    case False
    have "join [sep] ((c # p) # ps) = c # join [sep] (p # ps)"
      by (simp add: join_Cons)
    with Cons e False show ?thesis by simp
  qed
qed

lemma longest_common_prefix_append: "longest_common_prefix xs (xs @ ys) = xs"
  by (induction xs) simp_all

lemma getRelativePath_sibling:
  assumes "CHR ''/'' \<notin> set fn"
  shows "getRelativePath (dir @ ''/'' @ fn) ((dir @ ''/resources'') @ ''/'' @ lf) = ''resources/'' @ lf"
proof -
  have f: "butlast (split CHR ''/'' (dir @ ''/'' @ fn)) = split CHR ''/'' dir"
    using assms split_append_sep[of "CHR ''/''" dir fn] by (simp add: split_nosep)
  have "(dir @ ''/resources'') @ ''/'' @ lf = dir @ CHR ''/'' # (''resources'' @ CHR ''/'' # lf)"
    by simp
  then have t: "split CHR ''/'' ((dir @ ''/resources'') @ ''/'' @ lf)
                 = split CHR ''/'' dir @ ''resources'' # split CHR ''/'' lf"
    by (simp only: split_append_sep) (simp add: split_nosep)
  have j: "join ''/'' (''resources'' # split CHR ''/'' lf) = ''resources/'' @ lf"
    using join_split[of "CHR ''/''" lf] split_nonempty[of "CHR ''/''" lf]
    by (simp add: join_Cons)
  show ?thesis
    unfolding getRelativePath_lcp Let_def f t longest_common_prefix_append
    using j by simp
qed

lemma fileNameOf_no_slash: "CHR ''/'' \<notin> set (fileNameOf h memo)"
proof
  assume "CHR ''/'' \<in> set (fileNameOf h memo)"
  then have "\<not> isReserved (CHR ''/'')"
    unfolding fileNameOf_def by (rule sanitize_free)
  then show False by (simp add: isReserved_def)
qed

lemma downloadResource_link:
  assumes "CHR ''/'' \<notin> set fn" and "downloadResource h s r dir w = (Some p, w')"
  shows "mark @ ''['' @ filename r @ '']('' @ getRelativePath (dir @ ''/'' @ fn) p @ '')'' @ [CHR 0x0A]
           = linkLine mark r"
proof -
  have "p = (dir @ ''/resources'') @ ''/'' @ (resourceIdOf r @ ''_'' @ sanitizeFileName (filename r))"
    using downloadResource_Some[OF assms(2)] by (simp add: localPathOf_def)
  then show ?thesis
    by (simp only: getRelativePath_sibling[OF assms(1)] linkLine_def) simp
qed

lemma appendLinks_shape:
  assumes "CHR ''/'' \<notin> set fn"
    and "appendLinks h s mark (dir @ ''/'' @ fn) dir rs (doc, w) = (doc', w')"
  shows "\<exists>ks. subseq ks rs \<and> doc' = doc @ concat (map (linkLine mark) ks)"
  using assms(2)
proof (induction rs arbitrary: doc w)
  case Nil
  then show ?case by (intro exI[of _ "[]"]) simp
next
  case (Cons r rs)
  obtain res w1 where d: "downloadResource h s r dir w = (res, w1)"
    by (cases "downloadResource h s r dir w")
  show ?case
  proof (cases res)
    case None
    with Cons.prems d have "appendLinks h s mark (dir @ ''/'' @ fn) dir rs (doc, w1) = (doc', w')"
      by simp
    from Cons.IH[OF this] obtain ks where "subseq ks rs" "doc' = doc @ concat (map (linkLine mark) ks)"
      by blast
    then show ?thesis by (intro exI[of _ ks]) (simp add: list_emb_Cons)
  next
    case (Some p)
    have l: "mark @ ''['' @ filename r @ '']('' @ getRelativePath (dir @ ''/'' @ fn) p @ '')'' @ [CHR 0x0A]
           = linkLine mark r"
      using assms(1) d unfolding Some by (rule downloadResource_link)
    from Cons.prems d Some
    have "appendLinks h s mark (dir @ ''/'' @ fn) dir rs (doc @ linkLine mark r, w1) = (doc', w')"
      by (simp add: l[symmetric])
    from Cons.IH[OF this] obtain ks where "subseq ks rs"
      "doc' = (doc @ linkLine mark r) @ concat (map (linkLine mark) ks)"
      by blast
    then show ?thesis by (intro exI[of _ "r # ks"]) simp
  qed
qed

lemma appendLinks_mono:
  assumes "appendLinks h s mark fp dir rs (doc, w) = (doc', w')" and "exists_path w q"
  shows "exists_path w' q"
  using assms
proof (induction rs arbitrary: doc w)
  case Nil
  then show ?case by simp
next
  case (Cons r rs)
  obtain res w1 where d: "downloadResource h s r dir w = (res, w1)"
    by (cases "downloadResource h s r dir w")
  have e: "exists_path w1 q" using d Cons.prems(2) by (rule downloadResource_mono)
  from Cons.prems(1) d obtain doc1 where "appendLinks h s mark fp dir rs (doc1, w1) = (doc', w')"
    by (cases res) auto
  then show ?case using e by (rule Cons.IH)
qed

lemma appendLinks_all:
  assumes "CHR ''/'' \<notin> set fn"
    and "appendLinks h s mark (dir @ ''/'' @ fn) dir rs (doc, w) = (doc', w')"
    and "\<forall>r\<in>set rs. exists_path w (localPathOf r dir) \<or> fetchable h s dir r"
  shows "doc' = doc @ concat (map (linkLine mark) rs)"
  using assms(2,3)
proof (induction rs arbitrary: doc w)
  case Nil
  then show ?case by simp
next
  case (Cons r rs)
  have "exists_path w (localPathOf r dir) \<or> fetchable h s dir r" using Cons.prems(2) by simp
  then have "\<exists>w1. downloadResource h s r dir w = (Some (localPathOf r dir), w1)"
    by (auto simp: downloadResource_unfold Let_def fetchable_def split: response.splits)
  then obtain w1 where d: "downloadResource h s r dir w = (Some (localPathOf r dir), w1)"
    by blast
  have l: "mark @ ''['' @ filename r @ '']('' @ getRelativePath (dir @ ''/'' @ fn) (localPathOf r dir)
             @ '')'' @ [CHR 0x0A] = linkLine mark r"
    using assms(1) d by (rule downloadResource_link)
  from Cons.prems(1) d
  have a: "appendLinks h s mark (dir @ ''/'' @ fn) dir rs (doc @ linkLine mark r, w1) = (doc', w')"
    by (simp add: l[symmetric])
  have "\<forall>r\<in>set rs. exists_path w1 (localPathOf r dir) \<or> fetchable h s dir r"
    using Cons.prems(2) downloadResource_mono[OF d] by auto
  from Cons.IH[OF a this] show ?case by simp
qed

lemma appendLinks_present:
  assumes "appendLinks h s mark fp dir rs (doc, w) = (doc', w')"
    and "\<forall>r\<in>set rs. exists_path w (localPathOf r dir)"
  shows "netlog w' = netlog w \<and> files w' = files w"
  using assms
proof (induction rs arbitrary: doc w)
  case Nil
  then show ?case by simp
next
  case (Cons r rs)
  have d: "downloadResource h s r dir w
             = (Some (localPathOf r dir), ensureDirectoryExists (dir @ ''/resources'') w)"
    using Cons.prems(2) by (simp add: downloadResource_existing)
  from Cons.prems(1) obtain doc1 where
    a: "appendLinks h s mark fp dir rs (doc1, ensureDirectoryExists (dir @ ''/resources'') w) = (doc', w')"
    by (simp add: d)
  have "\<forall>r\<in>set rs. exists_path (ensureDirectoryExists (dir @ ''/resources'') w) (localPathOf r dir)"
    using Cons.prems(2) by simp
  from Cons.IH[OF a this] show ?case by simp
qed

lemma appendLinks_failed:
  assumes "\<not> exists_path w (localPathOf r dir)" and "failsToFetch h s r"
  shows "downloadResource h s r dir w
           = (None, send (GetFile (resourceUrlOf s r)) (ensureDirectoryExists (dir @ ''/resources'') w))
         \<and> appendLinks h s mark fp dir (r # rs) (doc, w)
           = appendLinks h s mark fp dir rs
               (doc, send (GetFile (resourceUrlOf s r)) (ensureDirectoryExists (dir @ ''/resources'') w))"
proof -
  have "downloadResource h s r dir w
           = (None, send (GetFile (resourceUrlOf s r)) (ensureDirectoryExists (dir @ ''/resources'') w))"
    using assms
    by (auto simp: downloadResource_unfold Let_def failsToFetch_def localPath_not_resourceDir
        split: response.splits)
  then show ?thesis by simp
qed

lemma saveMemoToFile_unfold:
  "saveMemoToFile h s memo w =
     (let dir = monthDirOf h s memo;
          fp = filePathOf h s memo;
          w2 = ensureDirectoryExists dir (ensureDirectoryExists (yearDirOf h s memo) w);
          (d1, wa) =
            (if images memo \<noteq> []
             then appendLinks h s ''!'' fp dir (images memo)
                    (rewriteTags (content memo) @ [CHR 0x0A, CHR 0x0A], w2)
             else (rewriteTags (content memo), w2));
          (d2, w3) =
            (if otherFiles memo \<noteq> []
             then appendLinks h s ''- '' fp dir (otherFiles memo)
                    (d1 @ [CHR 0x0A, CHR 0x0A] @ ''### Attachments'' @ [CHR 0x0A], wa)
             else (d1, wa));
          doc = d2 @ properties h memo
      in case (if exists_path w3 fp then vault_modify h fp doc w3 else vault_create h fp doc w3) of
           Inl e \<Rightarrow> (Inl (SaveFailed e), w3)
         | Inr w4 \<Rightarrow> (Inr (), w4))"
proof (cases "resources memo = []")
  case True
  then show ?thesis
    by (simp add: saveMemoToFile_def images_def otherFiles_def filePathOf_def Let_def)
next
  case False
  then show ?thesis
    by (simp add: saveMemoToFile_def images_def otherFiles_def filePathOf_def Let_def
        split: prod.splits)
qed

lemma saveMemoToFile_stages:
  obtains d1 wa d2 w3 where
    "(if images memo \<noteq> []
      then appendLinks h s ''!'' (filePathOf h s memo) (monthDirOf h s memo) (images memo)
             (rewriteTags (content memo) @ [CHR 0x0A, CHR 0x0A],
              ensureDirectoryExists (monthDirOf h s memo)
                (ensureDirectoryExists (yearDirOf h s memo) w))
      else (rewriteTags (content memo),
            ensureDirectoryExists (monthDirOf h s memo)
              (ensureDirectoryExists (yearDirOf h s memo) w))) = (d1, wa)"
    "(if otherFiles memo \<noteq> []
      then appendLinks h s ''- '' (filePathOf h s memo) (monthDirOf h s memo) (otherFiles memo)
             (d1 @ [CHR 0x0A, CHR 0x0A] @ ''### Attachments'' @ [CHR 0x0A], wa)
      else (d1, wa)) = (d2, w3)"
    "saveMemoToFile h s memo w =
       (case (if exists_path w3 (filePathOf h s memo)
              then vault_modify h (filePathOf h s memo) (d2 @ properties h memo) w3
              else vault_create h (filePathOf h s memo) (d2 @ properties h memo) w3) of
          Inl e \<Rightarrow> (Inl (SaveFailed e), w3)
        | Inr w4 \<Rightarrow> (Inr (), w4))"
proof -
  let ?w2 = "ensureDirectoryExists (monthDirOf h s memo)
                (ensureDirectoryExists (yearDirOf h s memo) w)"
  let ?A = "if images memo \<noteq> []
      then appendLinks h s ''!'' (filePathOf h s memo) (monthDirOf h s memo) (images memo)
             (rewriteTags (content memo) @ [CHR 0x0A, CHR 0x0A], ?w2)
      else (rewriteTags (content memo), ?w2)"
  obtain d1 wa where a: "?A = (d1, wa)" by (cases ?A)
  let ?B = "if otherFiles memo \<noteq> []
      then appendLinks h s ''- '' (filePathOf h s memo) (monthDirOf h s memo) (otherFiles memo)
             (d1 @ [CHR 0x0A, CHR 0x0A] @ ''### Attachments'' @ [CHR 0x0A], wa)
      else (d1, wa)"
  obtain d2 w3 where b: "?B = (d2, w3)" by (cases ?B)
  have "saveMemoToFile h s memo w =
       (case (if exists_path w3 (filePathOf h s memo)
              then vault_modify h (filePathOf h s memo) (d2 @ properties h memo) w3
              else vault_create h (filePathOf h s memo) (d2 @ properties h memo) w3) of
          Inl e \<Rightarrow> (Inl (SaveFailed e), w3)
        | Inr w4 \<Rightarrow> (Inr (), w4))"
    unfolding saveMemoToFile_unfold Let_def a prod.case b ..
  with a b show thesis by (rule that)
qed

lemma downloadResource_folders:
  "downloadResource h s r dir w = (res, w') \<Longrightarrow> folders w' \<subseteq> insert (dir @ ''/resources'') (folders w)"
  by (auto simp: downloadResource_unfold Let_def split: if_splits response.splits)

lemma appendLinks_folders:
  "appendLinks h s mark fp dir rs (doc, w) = (doc', w') \<Longrightarrow>
   folders w' \<subseteq> insert (dir @ ''/resources'') (folders w)"
proof (induction rs arbitrary: doc w)
  case Nil
  then show ?case by auto
next
  case (Cons r rs)
  obtain res w1 where d: "downloadResource h s r dir w = (res, w1)"
    by (cases "downloadResource h s r dir w")
  from Cons.prems d obtain doc1 where "appendLinks h s mark fp dir rs (doc1, w1) = (doc', w')"
    by (cases res) auto
  from Cons.IH[OF this] downloadResource_folders[OF d] show ?case by auto
qed

lemma appendLinks_all_present:
  assumes "appendLinks h s mark fp dir rs (doc, w) = (doc', w')"
    and "\<forall>r\<in>set rs. exists_path w (localPathOf r dir) \<or> fetchable h s dir r"
  shows "\<forall>r\<in>set rs. exists_path w' (localPathOf r dir)"
  using assms
proof (induction rs arbitrary: doc w)
  case Nil
  then show ?case by simp
next
  case (Cons r rs)
  have "exists_path w (localPathOf r dir) \<or> fetchable h s dir r" using Cons.prems(2) by simp
  then have "\<exists>w1. downloadResource h s r dir w = (Some (localPathOf r dir), w1)"
    by (auto simp: downloadResource_unfold Let_def fetchable_def split: response.splits)
  then obtain w1 where d: "downloadResource h s r dir w = (Some (localPathOf r dir), w1)"
    by blast
  from Cons.prems(1) d obtain doc1 where a: "appendLinks h s mark fp dir rs (doc1, w1) = (doc', w')"
    by auto
  have o: "\<forall>r\<in>set rs. exists_path w1 (localPathOf r dir) \<or> fetchable h s dir r"
    using Cons.prems(2) downloadResource_mono[OF d] by auto
  have "exists_path w1 (localPathOf r dir)" using downloadResource_Some[OF d] by simp
  then have "exists_path w' (localPathOf r dir)" by (rule appendLinks_mono[OF a])
  with Cons.IH[OF a o] show ?case by simp
qed

lemma fetchable_not_failing: "fetchable h s dir r \<Longrightarrow> \<not> failsToFetch h s r"
  by (auto simp: fetchable_def failsToFetch_def split: response.splits)

lemma appendLinks_all_failed:
  assumes "\<forall>r\<in>set rs. \<not> exists_path w (localPathOf r dir) \<and> failsToFetch h s r"
  shows "\<exists>w'. appendLinks h s mark fp dir rs (doc, w) = (doc, w')
              \<and> (\<forall>q. exists_path w' q \<longrightarrow> exists_path w q \<or> q = dir @ ''/resources'')"
  using assms
proof (induction rs arbitrary: w)
  case Nil
  show ?case by simp
next
  case (Cons r rs)
  let ?w1 = "send (GetFile (resourceUrlOf s r)) (ensureDirectoryExists (dir @ ''/resources'') w)"
  have st: "appendLinks h s mark fp dir (r # rs) (doc, w) = appendLinks h s mark fp dir rs (doc, ?w1)"
    using Cons.prems appendLinks_failed[of w r dir h s mark fp rs doc] by simp
  have "\<forall>r\<in>set rs. \<not> exists_path ?w1 (localPathOf r dir) \<and> failsToFetch h s r"
    using Cons.prems by (simp add: localPath_not_resourceDir)
  from Cons.IH[OF this] obtain w' where
    a: "appendLinks h s mark fp dir rs (doc, ?w1) = (doc, w')"
    and b: "\<forall>q. exists_path w' q \<longrightarrow> exists_path ?w1 q \<or> q = dir @ ''/resources''"
    by blast
  from b have "\<forall>q. exists_path w' q \<longrightarrow> exists_path w q \<or> q = dir @ ''/resources''"
    by simp
  with st a show ?case by simp
qed

lemma links_stage:
  assumes fn: "CHR ''/'' \<notin> set fn"
    and st: "(if rs \<noteq> [] then appendLinks h s mark (dir @ ''/'' @ fn) dir rs (doc @ header, w)
             else (doc, w)) = (doc', w')"
  shows "\<exists>ks. subseq ks rs
          \<and> doc' = doc @ (if rs \<noteq> [] then header @ concat (map (linkLine mark) ks) else [])
          \<and> ((\<forall>r\<in>set rs. exists_path w (localPathOf r dir) \<or> fetchable h s dir r) \<longrightarrow> ks = rs)
          \<and> ((\<forall>r\<in>set rs. \<not> exists_path w (localPathOf r dir) \<and> failsToFetch h s r) \<longrightarrow> ks = [])"
proof (cases "rs = []")
  case True
  with st show ?thesis by (intro exI[of _ "[]"]) simp
next
  case False
  with st have a: "appendLinks h s mark (dir @ ''/'' @ fn) dir rs (doc @ header, w) = (doc', w')"
    by simp
  show ?thesis
  proof (cases "\<forall>r\<in>set rs. exists_path w (localPathOf r dir) \<or> fetchable h s dir r")
    case True
    obtain r0 where "r0 \<in> set rs" using False by (cases rs) auto
    with True have "\<not> (\<forall>r\<in>set rs. \<not> exists_path w (localPathOf r dir) \<and> failsToFetch h s r)"
      using fetchable_not_failing by blast
    with appendLinks_all[OF fn a True] False True show ?thesis
      by (intro exI[of _ rs]) simp
  next
    case nall: False
    show ?thesis
    proof (cases "\<forall>r\<in>set rs. \<not> exists_path w (localPathOf r dir) \<and> failsToFetch h s r")
      case True
      from appendLinks_all_failed[OF True, of mark "dir @ ''/'' @ fn" "doc @ header"] a
      have "doc' = doc @ header" by auto
      with False nall show ?thesis by (intro exI[of _ "[]"]) auto
    next
      case nfail: False
      from appendLinks_shape[OF fn a] obtain ks where
        "subseq ks rs" "doc' = (doc @ header) @ concat (map (linkLine mark) ks)" by blast
      with False nall nfail show ?thesis by (intro exI[of _ ks]) auto
    qed
  qed
qed

lemma links_stage_world:
  assumes st: "(if rs \<noteq> [] then appendLinks h s mark fp dir rs (doc0, w) else (doc, w)) = (doc', w')"
  shows "(\<forall>q. exists_path w q \<longrightarrow> exists_path w' q)
         \<and> folders w' \<subseteq> insert (dir @ ''/resources'') (folders w)
         \<and> ((\<forall>r\<in>set rs. exists_path w (localPathOf r dir) \<or> fetchable h s dir r) \<longrightarrow>
              (\<forall>r\<in>set rs. exists_path w' (localPathOf r dir)))
         \<and> ((\<forall>r\<in>set rs. exists_path w (localPathOf r dir)) \<longrightarrow>
              netlog w' = netlog w \<and> files w' = files w)
         \<and> ((\<forall>r\<in>set rs. \<not> exists_path w (localPathOf r dir) \<and> failsToFetch h s r) \<longrightarrow>
              (\<forall>q. exists_path w' q \<longrightarrow> exists_path w q \<or> q = dir @ ''/resources''))"
proof (cases "rs = []")
  case True
  with st show ?thesis by auto
next
  case False
  with st have a: "appendLinks h s mark fp dir rs (doc0, w) = (doc', w')" by simp
  have "(\<forall>r\<in>set rs. \<not> exists_path w (localPathOf r dir) \<and> failsToFetch h s r) \<longrightarrow>
              (\<forall>q. exists_path w' q \<longrightarrow> exists_path w q \<or> q = dir @ ''/resources'')"
  proof
    assume "\<forall>r\<in>set rs. \<not> exists_path w (localPathOf r dir) \<and> failsToFetch h s r"
    from appendLinks_all_failed[OF this, of mark fp doc0] a
    show "\<forall>q. exists_path w' q \<longrightarrow> exists_path w q \<or> q = dir @ ''/resources''" by auto
  qed
  then show ?thesis
    using appendLinks_mono[OF a] appendLinks_folders[OF a] appendLinks_all_present[OF a]
      appendLinks_present[OF a]
    by blast
qed

lemma localPath_not_dirs:
  "localPathOf r (monthDirOf h s memo) \<noteq> yearDirOf h s memo"
  "localPathOf r (monthDirOf h s memo) \<noteq> monthDirOf h s memo"
  by (simp_all add: localPathOf_def monthDirOf_def Let_def)

lemma saveMemoToFile_summary:
  obtains imgs others w3 where
    "subseq imgs (images memo)" "subseq others (otherFiles memo)"
    "\<forall>q. exists_path w q \<longrightarrow> exists_path w3 q"
    "folders w3 \<subseteq> folders w \<union> {yearDirOf h s memo, monthDirOf h s memo,
                                  monthDirOf h s memo @ ''/resources''}"
    "(\<forall>r\<in>set (resources memo).
        exists_path w (localPathOf r (monthDirOf h s memo)) \<or> fetchable h s (monthDirOf h s memo) r)
     \<longrightarrow> imgs = images memo \<and> others = otherFiles memo
         \<and> (\<forall>r\<in>set (resources memo). exists_path w3 (localPathOf r (monthDirOf h s memo)))"
    "(\<forall>r\<in>set (resources memo). exists_path w (localPathOf r (monthDirOf h s memo)))
     \<longrightarrow> netlog w3 = netlog w \<and> files w3 = files w"
    "(\<forall>r\<in>set (resources memo).
        \<not> exists_path w (localPathOf r (monthDirOf h s memo)) \<and> failsToFetch h s r)
     \<longrightarrow> imgs = [] \<and> others = []"
    "saveMemoToFile h s memo w =
       (case (if exists_path w3 (filePathOf h s memo)
              then vault_modify h (filePathOf h s memo) (documentOf h memo imgs others) w3
              else vault_create h (filePathOf h s memo) (documentOf h memo imgs others) w3) of
          Inl e \<Rightarrow> (Inl (SaveFailed e), w3)
        | Inr w4 \<Rightarrow> (Inr (), w4))"
proof -
  let ?dir = "monthDirOf h s memo"
  let ?w2 = "ensureDirectoryExists ?dir (ensureDirectoryExists (yearDirOf h s memo) w)"
  obtain d1 wa d2 w3 where
    a: "(if images memo \<noteq> []
      then appendLinks h s ''!'' (filePathOf h s memo) ?dir (images memo)
             (rewriteTags (content memo) @ [CHR 0x0A, CHR 0x0A], ?w2)
      else (rewriteTags (content memo), ?w2)) = (d1, wa)"
    and b: "(if otherFiles memo \<noteq> []
      then appendLinks h s ''- '' (filePathOf h s memo) ?dir (otherFiles memo)
             (d1 @ [CHR 0x0A, CHR 0x0A] @ ''### Attachments'' @ [CHR 0x0A], wa)
      else (d1, wa)) = (d2, w3)"
    and c: "saveMemoToFile h s memo w =
       (case (if exists_path w3 (filePathOf h s memo)
              then vault_modify h (filePathOf h s memo) (d2 @ properties h memo) w3
              else vault_create h (filePathOf h s memo) (d2 @ properties h memo) w3) of
          Inl e \<Rightarrow> (Inl (SaveFailed e), w3)
        | Inr w4 \<Rightarrow> (Inr (), w4))"
    by (rule saveMemoToFile_stages)
  have fn: "CHR ''/'' \<notin> set (fileNameOf h memo)" by (rule fileNameOf_no_slash)
  have fp: "filePathOf h s memo = ?dir @ ''/'' @ fileNameOf h memo" by (simp add: filePathOf_def)
  from links_stage[OF fn a[unfolded fp]] obtain imgs where
    i: "subseq imgs (images memo)
        \<and> d1 = rewriteTags (content memo)
               @ (if images memo \<noteq> [] then [CHR 0x0A, CHR 0x0A] @ concat (map (linkLine ''!'') imgs) else [])
        \<and> ((\<forall>r\<in>set (images memo). exists_path ?w2 (localPathOf r ?dir) \<or> fetchable h s ?dir r)
             \<longrightarrow> imgs = images memo)
        \<and> ((\<forall>r\<in>set (images memo). \<not> exists_path ?w2 (localPathOf r ?dir) \<and> failsToFetch h s r)
             \<longrightarrow> imgs = [])"
    by (elim exE)
  from i have i1: "subseq imgs (images memo)" by (rule conjunct1)
  from i have i2: "d1 = rewriteTags (content memo)
               @ (if images memo \<noteq> [] then [CHR 0x0A, CHR 0x0A] @ concat (map (linkLine ''!'') imgs) else [])"
    by (rule conjunct2[THEN conjunct1])
  from i have i3: "(\<forall>r\<in>set (images memo). exists_path ?w2 (localPathOf r ?dir) \<or> fetchable h s ?dir r)
             \<longrightarrow> imgs = images memo"
    by (rule conjunct2[THEN conjunct2, THEN conjunct1])
  from i have i4: "(\<forall>r\<in>set (images memo). \<not> exists_path ?w2 (localPathOf r ?dir) \<and> failsToFetch h s r)
             \<longrightarrow> imgs = []"
    by (rule conjunct2[THEN conjunct2, THEN conjunct2])
  from links_stage[OF fn b[unfolded fp]] obtain others where
    o: "subseq others (otherFiles memo)
        \<and> d2 = d1 @ (if otherFiles memo \<noteq> []
                       then ([CHR 0x0A, CHR 0x0A] @ ''### Attachments'' @ [CHR 0x0A])
                            @ concat (map (linkLine ''- '') others) else [])
        \<and> ((\<forall>r\<in>set (otherFiles memo). exists_path wa (localPathOf r ?dir) \<or> fetchable h s ?dir r)
             \<longrightarrow> others = otherFiles memo)
        \<and> ((\<forall>r\<in>set (otherFiles memo). \<not> exists_path wa (localPathOf r ?dir) \<and> failsToFetch h s r)
             \<longrightarrow> others = [])"
    by (elim exE)
  from o have o1: "subseq others (otherFiles memo)" by (rule conjunct1)
  from o have o2: "d2 = d1 @ (if otherFiles memo \<noteq> []
                       then ([CHR 0x0A, CHR 0x0A] @ ''### Attachments'' @ [CHR 0x0A])
                            @ concat (map (linkLine ''- '') others) else [])"
    by (rule conjunct2[THEN conjunct1])
  from o have o3: "(\<forall>r\<in>set (otherFiles memo). exists_path wa (localPathOf r ?dir) \<or> fetchable h s ?dir r)
             \<longrightarrow> others = otherFiles memo"
    by (rule conjunct2[THEN conjunct2, THEN conjunct1])
  from o have o4: "(\<forall>r\<in>set (otherFiles memo). \<not> exists_path wa (localPathOf r ?dir) \<and> failsToFetch h s r)
             \<longrightarrow> others = []"
    by (rule conjunct2[THEN conjunct2, THEN conjunct2])
  note wa = links_stage_world[OF a]
  note w3 = links_stage_world[OF b]
  have wa1: "\<forall>q. exists_path ?w2 q \<longrightarrow> exists_path wa q" using wa by (rule conjunct1)
  have wa2: "folders wa \<subseteq> insert (?dir @ ''/resources'') (folders ?w2)"
    using wa by (rule conjunct2[THEN conjunct1])
  have wa3: "(\<forall>r\<in>set (images memo). exists_path ?w2 (localPathOf r ?dir) \<or> fetchable h s ?dir r) \<longrightarrow>
              (\<forall>r\<in>set (images memo). exists_path wa (localPathOf r ?dir))"
    using wa by (rule conjunct2[THEN conjunct2, THEN conjunct1])
  have wa4: "(\<forall>r\<in>set (images memo). exists_path ?w2 (localPathOf r ?dir)) \<longrightarrow>
              netlog wa = netlog ?w2 \<and> files wa = files ?w2"
    using wa by (rule conjunct2[THEN conjunct2, THEN conjunct2, THEN conjunct1])
  have wa5: "(\<forall>r\<in>set (images memo). \<not> exists_path ?w2 (localPathOf r ?dir) \<and> failsToFetch h s r) \<longrightarrow>
              (\<forall>q. exists_path wa q \<longrightarrow> exists_path ?w2 q \<or> q = ?dir @ ''/resources'')"
    using wa by (rule conjunct2[THEN conjunct2, THEN conjunct2, THEN conjunct2])
  have w31: "\<forall>q. exists_path wa q \<longrightarrow> exists_path w3 q" using w3 by (rule conjunct1)
  have w32: "folders w3 \<subseteq> insert (?dir @ ''/resources'') (folders wa)"
    using w3 by (rule conjunct2[THEN conjunct1])
  have w33: "(\<forall>r\<in>set (otherFiles memo). exists_path wa (localPathOf r ?dir) \<or> fetchable h s ?dir r) \<longrightarrow>
              (\<forall>r\<in>set (otherFiles memo). exists_path w3 (localPathOf r ?dir))"
    using w3 by (rule conjunct2[THEN conjunct2, THEN conjunct1])
  have w34: "(\<forall>r\<in>set (otherFiles memo). exists_path wa (localPathOf r ?dir)) \<longrightarrow>
              netlog w3 = netlog wa \<and> files w3 = files wa"
    using w3 by (rule conjunct2[THEN conjunct2, THEN conjunct2, THEN conjunct1])
  have m2: "\<forall>q. exists_path w q \<longrightarrow> exists_path ?w2 q" by simp
  have f2: "folders ?w2 \<subseteq> folders w \<union> {yearDirOf h s memo, ?dir}" by auto
  have si: "set (images memo) \<subseteq> set (resources memo)"
    and so: "set (otherFiles memo) \<subseteq> set (resources memo)"
    and sr: "set (resources memo) \<subseteq> set (images memo) \<union> set (otherFiles memo)"
    by (auto simp: images_def otherFiles_def)
  have doc: "d2 @ properties h memo = documentOf h memo imgs others"
    by (simp add: documentOf_def i2 o2)
  have 3: "\<forall>q. exists_path w q \<longrightarrow> exists_path w3 q" using m2 wa1 w31 by blast
  have 4: "folders w3 \<subseteq> folders w \<union> {yearDirOf h s memo, ?dir, ?dir @ ''/resources''}"
    using f2 wa2 w32 by blast
  have 5: "(\<forall>r\<in>set (resources memo). exists_path w (localPathOf r ?dir) \<or> fetchable h s ?dir r)
     \<longrightarrow> imgs = images memo \<and> others = otherFiles memo
         \<and> (\<forall>r\<in>set (resources memo). exists_path w3 (localPathOf r ?dir))"
  proof
    assume all: "\<forall>r\<in>set (resources memo). exists_path w (localPathOf r ?dir) \<or> fetchable h s ?dir r"
    have ai: "\<forall>r\<in>set (images memo). exists_path ?w2 (localPathOf r ?dir) \<or> fetchable h s ?dir r"
      using all si m2 by blast
    have ao: "\<forall>r\<in>set (otherFiles memo). exists_path wa (localPathOf r ?dir) \<or> fetchable h s ?dir r"
      using all so m2 wa1 by blast
    have pi: "\<forall>r\<in>set (images memo). exists_path w3 (localPathOf r ?dir)"
      using ai wa3 w31 by blast
    have po: "\<forall>r\<in>set (otherFiles memo). exists_path w3 (localPathOf r ?dir)"
      using ao w33 by blast
    have "\<forall>r\<in>set (resources memo). exists_path w3 (localPathOf r ?dir)"
      using pi po sr by blast
    moreover have "imgs = images memo" using i3 ai by blast
    moreover have "others = otherFiles memo" using o3 ao by blast
    ultimately show "imgs = images memo \<and> others = otherFiles memo
         \<and> (\<forall>r\<in>set (resources memo). exists_path w3 (localPathOf r ?dir))"
      by simp
  qed
  have 6: "(\<forall>r\<in>set (resources memo). exists_path w (localPathOf r ?dir))
     \<longrightarrow> netlog w3 = netlog w \<and> files w3 = files w"
  proof
    assume all: "\<forall>r\<in>set (resources memo). exists_path w (localPathOf r ?dir)"
    have ai: "\<forall>r\<in>set (images memo). exists_path ?w2 (localPathOf r ?dir)"
      using all si m2 by blast
    then have ea: "netlog wa = netlog ?w2 \<and> files wa = files ?w2" using wa4 by blast
    have ao: "\<forall>r\<in>set (otherFiles memo). exists_path wa (localPathOf r ?dir)"
      using all so m2 wa1 by blast
    then have "netlog w3 = netlog wa \<and> files w3 = files wa" using w34 by blast
    with ea show "netlog w3 = netlog w \<and> files w3 = files w" by simp
  qed
  have 7: "(\<forall>r\<in>set (resources memo). \<not> exists_path w (localPathOf r ?dir) \<and> failsToFetch h s r)
     \<longrightarrow> imgs = [] \<and> others = []"
  proof
    assume all: "\<forall>r\<in>set (resources memo). \<not> exists_path w (localPathOf r ?dir) \<and> failsToFetch h s r"
    have n2: "\<forall>r\<in>set (resources memo). \<not> exists_path ?w2 (localPathOf r ?dir)"
      using all by (simp add: localPath_not_dirs)
    have ai: "\<forall>r\<in>set (images memo). \<not> exists_path ?w2 (localPathOf r ?dir) \<and> failsToFetch h s r"
      using all n2 si by blast
    then have "\<forall>q. exists_path wa q \<longrightarrow> exists_path ?w2 q \<or> q = ?dir @ ''/resources''"
      using wa5 by blast
    then have "\<forall>r\<in>set (resources memo). \<not> exists_path wa (localPathOf r ?dir)"
      using n2 localPath_not_resourceDir by blast
    then have ao: "\<forall>r\<in>set (otherFiles memo). \<not> exists_path wa (localPathOf r ?dir) \<and> failsToFetch h s r"
      using all so by blast
    from i4 ai have "imgs = []" by blast
    moreover from o4 ao have "others = []" by blast
    ultimately show "imgs = [] \<and> others = []" by simp
  qed
  show thesis
    using i1 o1 3 4 5 6 7 c[unfolded doc] by (rule that)
qed

section \<open>A second pass over the same records\<close>

lemma write_result:
  assumes "(if exists_path w3 fp then vault_modify h fp doc w3 else vault_create h fp doc w3) = Inr w4"
  shows "w4 = putFile fp doc w3"
  using assms by (auto simp: vault_modify_def vault_create_def split: if_splits)

lemma saveMemoToFile_mono:
  assumes "saveMemoToFile h s memo w = (res, w')" and "exists_path w q"
  shows "exists_path w' q"
proof -
  obtain imgs others w3 where m: "\<forall>q. exists_path w q \<longrightarrow> exists_path w3 q"
    and c: "saveMemoToFile h s memo w =
       (case (if exists_path w3 (filePathOf h s memo)
              then vault_modify h (filePathOf h s memo) (documentOf h memo imgs others) w3
              else vault_create h (filePathOf h s memo) (documentOf h memo imgs others) w3) of
          Inl e \<Rightarrow> (Inl (SaveFailed e), w3)
        | Inr w4 \<Rightarrow> (Inr (), w4))"
    by (rule saveMemoToFile_summary[of memo w h s]) blast
  from m assms(2) have e: "exists_path w3 q" by blast
  show ?thesis
  proof (cases "if exists_path w3 (filePathOf h s memo)
              then vault_modify h (filePathOf h s memo) (documentOf h memo imgs others) w3
              else vault_create h (filePathOf h s memo) (documentOf h memo imgs others) w3")
    case (Inl err)
    with c assms(1) e show ?thesis by simp
  next
    case (Inr w4)
    from write_result[OF Inr] c assms(1) e Inr show ?thesis by auto
  qed
qed

lemma saveMemoToFile_present:
  assumes "saveMemoToFile h s memo w = (res, w')" and "present h s w memo"
  shows "netlog w' = netlog w"
proof -
  obtain imgs others w3 where
    n: "(\<forall>r\<in>set (resources memo). exists_path w (localPathOf r (monthDirOf h s memo)))
          \<longrightarrow> netlog w3 = netlog w \<and> files w3 = files w"
    and c: "saveMemoToFile h s memo w =
       (case (if exists_path w3 (filePathOf h s memo)
              then vault_modify h (filePathOf h s memo) (documentOf h memo imgs others) w3
              else vault_create h (filePathOf h s memo) (documentOf h memo imgs others) w3) of
          Inl e \<Rightarrow> (Inl (SaveFailed e), w3)
        | Inr w4 \<Rightarrow> (Inr (), w4))"
    by (rule saveMemoToFile_summary[of memo w h s]) blast
  from n assms(2) have e: "netlog w3 = netlog w" by (simp add: present_def list_all_iff)
  show ?thesis
  proof (cases "if exists_path w3 (filePathOf h s memo)
              then vault_modify h (filePathOf h s memo) (documentOf h memo imgs others) w3
              else vault_create h (filePathOf h s memo) (documentOf h memo imgs others) w3")
    case (Inl err)
    with c assms(1) e show ?thesis by simp
  next
    case (Inr w4)
    from write_result[OF Inr] c assms(1) e Inr show ?thesis by auto
  qed
qed

lemma saveMemoToFile_makes_present:
  assumes "saveMemoToFile h s memo w = (res, w')"
    and "\<forall>r\<in>set (resources memo). fetchable h s (monthDirOf h s memo) r"
  shows "present h s w' memo"
proof -
  obtain imgs others w3 where
    n: "(\<forall>r\<in>set (resources memo).
        exists_path w (localPathOf r (monthDirOf h s memo)) \<or> fetchable h s (monthDirOf h s memo) r)
     \<longrightarrow> imgs = images memo \<and> others = otherFiles memo
         \<and> (\<forall>r\<in>set (resources memo). exists_path w3 (localPathOf r (monthDirOf h s memo)))"
    and c: "saveMemoToFile h s memo w =
       (case (if exists_path w3 (filePathOf h s memo)
              then vault_modify h (filePathOf h s memo) (documentOf h memo imgs others) w3
              else vault_create h (filePathOf h s memo) (documentOf h memo imgs others) w3) of
          Inl e \<Rightarrow> (Inl (SaveFailed e), w3)
        | Inr w4 \<Rightarrow> (Inr (), w4))"
    by (rule saveMemoToFile_summary[of memo w h s]) blast
  from n assms(2) have e: "\<forall>r\<in>set (resources memo). exists_path w3 (localPathOf r (monthDirOf h s memo))"
    by blast
  have "\<forall>r\<in>set (resources memo). exists_path w' (localPathOf r (monthDirOf h s memo))"
  proof (cases "if exists_path w3 (filePathOf h s memo)
              then vault_modify h (filePathOf h s memo) (documentOf h memo imgs others) w3
              else vault_create h (filePathOf h s memo) (documentOf h memo imgs others) w3")
    case (Inl err)
    with c assms(1) e show ?thesis by simp
  next
    case (Inr w4)
    from write_result[OF Inr] c assms(1) e Inr show ?thesis by auto
  qed
  then show ?thesis by (simp add: present_def list_all_iff)
qed

lemma present_mono:
  "present h s w memo \<Longrightarrow> (\<forall>q. exists_path w q \<longrightarrow> exists_path w' q) \<Longrightarrow> present h s w' memo"
  by (simp add: present_def list_all_iff)

lemma saveAll_mono:
  "saveAll h s memos n w = (res, w') \<Longrightarrow> exists_path w q \<Longrightarrow> exists_path w' q"
proof (induction memos arbitrary: n w)
  case Nil
  then show ?case by simp
next
  case (Cons memo memos)
  obtain r1 w1 where s1: "saveMemoToFile h s memo w = (r1, w1)"
    by (cases "saveMemoToFile h s memo w")
  have e: "exists_path w1 q" using s1 Cons.prems(2) by (rule saveMemoToFile_mono)
  show ?case
  proof (cases r1)
    case (Inl err)
    with Cons.prems(1) s1 e show ?thesis by simp
  next
    case (Inr u)
    with Cons.prems(1) s1 have "saveAll h s memos (Suc n) w1 = (res, w')" by simp
    then show ?thesis using e by (rule Cons.IH)
  qed
qed

lemma saveAll_present:
  "saveAll h s memos n w = (res, w') \<Longrightarrow> \<forall>memo\<in>set memos. present h s w memo \<Longrightarrow>
   netlog w' = netlog w"
proof (induction memos arbitrary: n w)
  case Nil
  then show ?case by simp
next
  case (Cons memo memos)
  obtain r1 w1 where s1: "saveMemoToFile h s memo w = (r1, w1)"
    by (cases "saveMemoToFile h s memo w")
  have e: "netlog w1 = netlog w" using s1 Cons.prems(2) by (simp add: saveMemoToFile_present)
  have m: "\<forall>q. exists_path w q \<longrightarrow> exists_path w1 q" using saveMemoToFile_mono[OF s1] by blast
  show ?case
  proof (cases r1)
    case (Inl err)
    with Cons.prems(1) s1 e show ?thesis by simp
  next
    case (Inr u)
    with Cons.prems(1) s1 have a: "saveAll h s memos (Suc n) w1 = (res, w')" by simp
    have "\<forall>memo\<in>set memos. present h s w1 memo"
      using Cons.prems(2) m by (auto intro: present_mono)
    from Cons.IH[OF a this] e show ?thesis by simp
  qed
qed

lemma saveAll_makes_present:
  "saveAll h s memos n w = (Inr k, w') \<Longrightarrow>
   \<forall>memo\<in>set memos. \<forall>r\<in>set (resources memo). fetchable h s (monthDirOf h s memo) r \<Longrightarrow>
   \<forall>memo\<in>set memos. present h s w' memo"
proof (induction memos arbitrary: n w)
  case Nil
  then show ?case by simp
next
  case (Cons memo memos)
  obtain r1 w1 where s1: "saveMemoToFile h s memo w = (r1, w1)"
    by (cases "saveMemoToFile h s memo w")
  show ?case
  proof (cases r1)
    case (Inl err)
    with Cons.prems(1) s1 show ?thesis by simp
  next
    case (Inr u)
    with Cons.prems(1) s1 have a: "saveAll h s memos (Suc n) w1 = (Inr k, w')" by simp
    have p1: "present h s w1 memo"
      using s1 Cons.prems(2) by (simp add: saveMemoToFile_makes_present)
    have "\<forall>q. exists_path w1 q \<longrightarrow> exists_path w' q" using saveAll_mono[OF a] by blast
    with p1 have "present h s w' memo" by (rule present_mono)
    moreover have "\<forall>memo\<in>set memos. present h s w' memo"
      using Cons.IH[OF a] Cons.prems(2) by simp
    ultimately show ?thesis by simp
  qed
qed

lemma present_zone: "tzMinutes h' = tzMinutes h \<Longrightarrow> present h' s w memo = present h s w memo"
  by (simp add: present_def monthDirOf_def yearDirOf_def)

section \<open>The document is written whatever the downloads do\<close>

lemma filePath_not_folder:
  "filePathOf h s memo \<notin> {yearDirOf h s memo, monthDirOf h s memo, monthDirOf h s memo @ ''/resources''}"
proof -
  have l: "last (fileNameOf h memo) = CHR ''d''"
    by (simp add: fileNameOf_form)
  have "fileNameOf h memo \<noteq> ''resources''"
  proof
    assume e: "fileNameOf h memo = ''resources''"
    show False using l unfolding e by simp
  qed
  then have 1: "filePathOf h s memo \<noteq> monthDirOf h s memo @ ''/resources''"
    by (simp add: filePathOf_def)
  have 2: "filePathOf h s memo \<noteq> monthDirOf h s memo"
    by (simp add: filePathOf_def)
  have 3: "filePathOf h s memo \<noteq> yearDirOf h s memo"
    by (simp add: filePathOf_def monthDirOf_def Let_def)
  from 1 2 3 show ?thesis by simp
qed

lemma saveMemoToFile_created:
  assumes nf: "\<not> writeFails h (filePathOf h s memo)" and nd: "filePathOf h s memo \<notin> folders w"
  shows "\<exists>w' imgs others.
           saveMemoToFile h s memo w = (Inr (), w')
           \<and> subseq imgs (images memo) \<and> subseq others (otherFiles memo)
           \<and> files w' (filePathOf h s memo) = Some (documentOf h memo imgs others)
           \<and> ((\<forall>r\<in>set (resources memo).
                  exists_path w (localPathOf r (monthDirOf h s memo))
                  \<or> fetchable h s (monthDirOf h s memo) r)
                \<longrightarrow> imgs = images memo \<and> others = otherFiles memo)
           \<and> ((\<forall>r\<in>set (resources memo).
                  \<not> exists_path w (localPathOf r (monthDirOf h s memo)) \<and> failsToFetch h s r)
                \<longrightarrow> imgs = [] \<and> others = [])"
proof -
  obtain imgs others w3 where
    i: "subseq imgs (images memo)" and o: "subseq others (otherFiles memo)"
    and f: "folders w3 \<subseteq> folders w \<union> {yearDirOf h s memo, monthDirOf h s memo,
                                  monthDirOf h s memo @ ''/resources''}"
    and n: "(\<forall>r\<in>set (resources memo).
        exists_path w (localPathOf r (monthDirOf h s memo)) \<or> fetchable h s (monthDirOf h s memo) r)
     \<longrightarrow> imgs = images memo \<and> others = otherFiles memo
         \<and> (\<forall>r\<in>set (resources memo). exists_path w3 (localPathOf r (monthDirOf h s memo)))"
    and n7: "(\<forall>r\<in>set (resources memo).
        \<not> exists_path w (localPathOf r (monthDirOf h s memo)) \<and> failsToFetch h s r)
     \<longrightarrow> imgs = [] \<and> others = []"
    and c: "saveMemoToFile h s memo w =
       (case (if exists_path w3 (filePathOf h s memo)
              then vault_modify h (filePathOf h s memo) (documentOf h memo imgs others) w3
              else vault_create h (filePathOf h s memo) (documentOf h memo imgs others) w3) of
          Inl e \<Rightarrow> (Inl (SaveFailed e), w3)
        | Inr w4 \<Rightarrow> (Inr (), w4))"
    by (rule saveMemoToFile_summary[of memo w h s]) blast
  have "filePathOf h s memo \<notin> folders w3"
    using f nd filePath_not_folder[of h s memo] by blast
  then have w: "(if exists_path w3 (filePathOf h s memo)
              then vault_modify h (filePathOf h s memo) (documentOf h memo imgs others) w3
              else vault_create h (filePathOf h s memo) (documentOf h memo imgs others) w3)
           = Inr (putFile (filePathOf h s memo) (documentOf h memo imgs others) w3)"
    using nf by (auto simp: vault_modify_def vault_create_def exists_path_def)
  have r: "saveMemoToFile h s memo w
          = (Inr (), putFile (filePathOf h s memo) (documentOf h memo imgs others) w3)"
    unfolding c w by simp
  have d: "files (putFile (filePathOf h s memo) (documentOf h memo imgs others) w3) (filePathOf h s memo)
          = Some (documentOf h memo imgs others)"
    by simp
  from n have n': "(\<forall>r\<in>set (resources memo).
                  exists_path w (localPathOf r (monthDirOf h s memo))
                  \<or> fetchable h s (monthDirOf h s memo) r)
                \<longrightarrow> imgs = images memo \<and> others = otherFiles memo"
    by blast
  show ?thesis
    using r i o d n' n7 by blast
qed

text \<open>
  Claim C3. A resource whose local file exists is not requested: \<open>downloadResource\<close> returns
  the local path, and neither the request log nor the files change. A download that has
  succeeded is not repeated, whatever the host answers the second time. A pass over records
  whose resources all have their local files sends no request. After a pass that has written
  every record and fetched every resource, a second pass over the same records sends no
  request, on any host of the same zone, whatever it would serve.
\<close>

theorem downloadResource_idempotent:
  "(exists_path w (localPathOf r dir) \<longrightarrow>
      downloadResource h s r dir w
        = (Some (localPathOf r dir), ensureDirectoryExists (dir @ ''/resources'') w)
      \<and> netlog (snd (downloadResource h s r dir w)) = netlog w
      \<and> files (snd (downloadResource h s r dir w)) = files w)
   \<and> (downloadResource h s r dir w = (Some p, w') \<longrightarrow>
        downloadResource h' s' r dir w' = (Some p, w'))
   \<and> ((\<forall>memo\<in>set memos. present h s w memo) \<longrightarrow>
        netlog (snd (saveAll h s memos n w)) = netlog w)
   \<and> (saveAll h s memos n w0 = (Inr k, w1)
        \<and> (\<forall>memo\<in>set memos. \<forall>r\<in>set (resources memo). fetchable h s (monthDirOf h s memo) r)
        \<and> tzMinutes h' = tzMinutes h \<longrightarrow>
        netlog (snd (saveAll h' s memos n' w1)) = netlog w1)"
proof (intro conjI impI)
  assume e: "exists_path w (localPathOf r dir)"
  then show d: "downloadResource h s r dir w
        = (Some (localPathOf r dir), ensureDirectoryExists (dir @ ''/resources'') w)"
    by (rule downloadResource_existing)
  show "netlog (snd (downloadResource h s r dir w)) = netlog w" by (simp add: d)
  show "files (snd (downloadResource h s r dir w)) = files w" by (simp add: d)
next
  assume "downloadResource h s r dir w = (Some p, w')"
  then show "downloadResource h' s' r dir w' = (Some p, w')" by (rule downloadResource_again)
next
  assume p: "\<forall>memo\<in>set memos. present h s w memo"
  obtain res w2 where a: "saveAll h s memos n w = (res, w2)" by (cases "saveAll h s memos n w")
  from saveAll_present[OF a p] a show "netlog (snd (saveAll h s memos n w)) = netlog w" by simp
next
  assume a: "saveAll h s memos n w0 = (Inr k, w1)
        \<and> (\<forall>memo\<in>set memos. \<forall>r\<in>set (resources memo). fetchable h s (monthDirOf h s memo) r)
        \<and> tzMinutes h' = tzMinutes h"
  then have a1: "saveAll h s memos n w0 = (Inr k, w1)"
    and a2: "\<forall>memo\<in>set memos. \<forall>r\<in>set (resources memo). fetchable h s (monthDirOf h s memo) r"
    and z: "tzMinutes h' = tzMinutes h"
    by simp_all
  have "\<forall>memo\<in>set memos. present h s w1 memo" using a1 a2 by (rule saveAll_makes_present)
  then have p: "\<forall>memo\<in>set memos. present h' s w1 memo"
    by (simp only: present_zone[OF z])
  obtain res w2 where b: "saveAll h' s memos n' w1 = (res, w2)" by (cases "saveAll h' s memos n' w1")
  from saveAll_present[OF b p] b show "netlog (snd (saveAll h' s memos n' w1)) = netlog w1" by simp
qed

theorem downloadResource_idempotent_witness:
  "exists_path (putFile (localPathOf photo (monthDirOf servingHost scenarioSettings meeting)) ''OLD'' emptyWorld)
     (localPathOf photo (monthDirOf servingHost scenarioSettings meeting))
   \<and> fst (downloadResource servingHost scenarioSettings photo
             (monthDirOf servingHost scenarioSettings meeting)
             (putFile (localPathOf photo (monthDirOf servingHost scenarioSettings meeting)) ''OLD'' emptyWorld))
       = Some (localPathOf photo (monthDirOf servingHost scenarioSettings meeting))
   \<and> netlog (snd (downloadResource servingHost scenarioSettings photo
             (monthDirOf servingHost scenarioSettings meeting)
             (putFile (localPathOf photo (monthDirOf servingHost scenarioSettings meeting)) ''OLD'' emptyWorld)))
       = []
   \<and> present servingHost scenarioSettings
         (putFile (localPathOf photo (monthDirOf servingHost scenarioSettings meeting)) ''OLD'' emptyWorld)
         meeting
   \<and> netlog (snd (saveAll servingHost scenarioSettings [meeting] 0
         (putFile (localPathOf photo (monthDirOf servingHost scenarioSettings meeting)) ''OLD'' emptyWorld)))
       = []
   \<and> fst (saveAll servingHost scenarioSettings [meeting] 0 emptyWorld) = Inr 1
   \<and> fetchable servingHost scenarioSettings (monthDirOf servingHost scenarioSettings meeting) photo
   \<and> tzMinutes offlineHost = tzMinutes servingHost
   \<and> netlog (snd (saveAll offlineHost scenarioSettings [meeting] 0
                     (snd (saveAll servingHost scenarioSettings [meeting] 0 emptyWorld))))
       = netlog (snd (saveAll servingHost scenarioSettings [meeting] 0 emptyWorld))"
proof -
  let ?h = servingHost and ?s = scenarioSettings
  let ?dir = "monthDirOf ?h ?s meeting"
  let ?w = "putFile (localPathOf photo ?dir) ''OLD'' emptyWorld"
  have e: "exists_path ?w (localPathOf photo ?dir)" by simp
  have p: "\<forall>memo\<in>set [meeting]. present ?h ?s ?w memo"
    by (simp add: present_def meeting_def memoOf_def)
  have f: "\<forall>memo\<in>set [meeting]. \<forall>r\<in>set (resources memo). fetchable ?h ?s (monthDirOf ?h ?s memo) r"
    by (simp add: fetchable_def servingHost_def utcHost_def ok_def)
  have z: "tzMinutes offlineHost = tzMinutes ?h"
    by (simp add: offlineHost_def servingHost_def utcHost_def)
  have "\<not> writeFails ?h (filePathOf ?h ?s meeting)"
    by (simp add: servingHost_def utcHost_def)
  moreover have "filePathOf ?h ?s meeting \<notin> folders emptyWorld" by (simp add: emptyWorld_def)
  ultimately obtain w1 where "saveMemoToFile ?h ?s meeting emptyWorld = (Inr (), w1)"
    using saveMemoToFile_created by blast
  then have a: "saveAll ?h ?s [meeting] 0 emptyWorld = (Inr 1, w1)" by simp
  then have a': "saveAll ?h ?s [meeting] 0 emptyWorld
                   = (Inr 1, snd (saveAll ?h ?s [meeting] 0 emptyWorld))" by simp
  note t = downloadResource_idempotent[where w = ?w and r = photo and dir = ?dir and h = ?h
      and s = ?s and memos = "[meeting]" and n = 0 and w0 = emptyWorld and k = 1
      and ?w1.0 = "snd (saveAll ?h ?s [meeting] 0 emptyWorld)" and h' = offlineHost and n' = 0]
  have n: "netlog ?w = []" by (simp add: emptyWorld_def)
  from t have t1: "exists_path ?w (localPathOf photo ?dir) \<longrightarrow>
      downloadResource ?h ?s photo ?dir ?w
        = (Some (localPathOf photo ?dir), ensureDirectoryExists (?dir @ ''/resources'') ?w)
      \<and> netlog (snd (downloadResource ?h ?s photo ?dir ?w)) = netlog ?w
      \<and> files (snd (downloadResource ?h ?s photo ?dir ?w)) = files ?w"
    by (rule conjunct1)
  from t have t3: "(\<forall>memo\<in>set [meeting]. present ?h ?s ?w memo) \<longrightarrow>
        netlog (snd (saveAll ?h ?s [meeting] 0 ?w)) = netlog ?w"
    by (rule conjunct2[THEN conjunct2, THEN conjunct1])
  from t have t4: "saveAll ?h ?s [meeting] 0 emptyWorld = (Inr 1, snd (saveAll ?h ?s [meeting] 0 emptyWorld))
        \<and> (\<forall>memo\<in>set [meeting]. \<forall>r\<in>set (resources memo). fetchable ?h ?s (monthDirOf ?h ?s memo) r)
        \<and> tzMinutes offlineHost = tzMinutes ?h \<longrightarrow>
        netlog (snd (saveAll offlineHost ?s [meeting] 0 (snd (saveAll ?h ?s [meeting] 0 emptyWorld))))
          = netlog (snd (saveAll ?h ?s [meeting] 0 emptyWorld))"
    by (rule conjunct2[THEN conjunct2, THEN conjunct2])
  have 1: "fst (downloadResource ?h ?s photo ?dir ?w) = Some (localPathOf photo ?dir)"
    using t1[THEN mp, OF e, THEN conjunct1] by (simp only: fst_conv)
  have 2: "netlog (snd (downloadResource ?h ?s photo ?dir ?w)) = []"
    using t1[THEN mp, OF e, THEN conjunct2, THEN conjunct1] by (simp only: n)
  have 3: "netlog (snd (saveAll ?h ?s [meeting] 0 ?w)) = []"
    using t3[THEN mp, OF p] by (simp only: n)
  have 4: "netlog (snd (saveAll offlineHost ?s [meeting] 0 (snd (saveAll ?h ?s [meeting] 0 emptyWorld))))
          = netlog (snd (saveAll ?h ?s [meeting] 0 emptyWorld))"
    by (rule t4[THEN mp, OF conjI[OF a' conjI[OF f z]]])
  from a have 5: "fst (saveAll ?h ?s [meeting] 0 emptyWorld) = Inr 1" by simp
  have p': "present ?h ?s ?w meeting" using p by simp
  have f': "fetchable ?h ?s ?dir photo"
    by (simp add: fetchable_def servingHost_def utcHost_def ok_def)
  show ?thesis by (intro conjI e 1 2 p' 3 5 f' z 4)
qed

text \<open>
  Claim C6. A download that is answered by an error of the transport or by a status that is
  not 2xx makes \<open>downloadResource\<close> return no path, and the loop over the resources goes on
  with the next one, the document text as it was: the link is left out. Whatever the
  downloads do, a record whose document the host accepts gets its document, and the loop
  over the records goes on with the next record; when every download fails the document has
  no link at all.
\<close>

theorem download_failure_isolated:
  "(\<not> exists_path w (localPathOf r dir) \<and> failsToFetch h s r \<longrightarrow>
      downloadResource h s r dir w
        = (None, send (GetFile (resourceUrlOf s r)) (ensureDirectoryExists (dir @ ''/resources'') w))
      \<and> appendLinks h s mark fp dir (r # rs) (doc, w)
        = appendLinks h s mark fp dir rs
            (doc, send (GetFile (resourceUrlOf s r)) (ensureDirectoryExists (dir @ ''/resources'') w)))
   \<and> (\<not> writeFails h (filePathOf h s memo) \<and> filePathOf h s memo \<notin> folders v \<longrightarrow>
      (\<exists>v' imgs others.
          saveMemoToFile h s memo v = (Inr (), v')
          \<and> subseq imgs (images memo) \<and> subseq others (otherFiles memo)
          \<and> files v' (filePathOf h s memo) = Some (documentOf h memo imgs others)
          \<and> ((\<forall>r\<in>set (resources memo).
                 \<not> exists_path v (localPathOf r (monthDirOf h s memo)) \<and> failsToFetch h s r)
               \<longrightarrow> imgs = [] \<and> others = [])
          \<and> saveAll h s (memo # memos) n v = saveAll h s memos (Suc n) v'))"
proof (intro conjI impI)
  assume a: "\<not> exists_path w (localPathOf r dir) \<and> failsToFetch h s r"
  then have "\<not> exists_path w (localPathOf r dir)" and "failsToFetch h s r" by simp_all
  from appendLinks_failed[OF this, of mark fp rs doc]
  show "downloadResource h s r dir w
        = (None, send (GetFile (resourceUrlOf s r)) (ensureDirectoryExists (dir @ ''/resources'') w))"
    and "appendLinks h s mark fp dir (r # rs) (doc, w)
        = appendLinks h s mark fp dir rs
            (doc, send (GetFile (resourceUrlOf s r)) (ensureDirectoryExists (dir @ ''/resources'') w))"
    by simp_all
next
  assume "\<not> writeFails h (filePathOf h s memo) \<and> filePathOf h s memo \<notin> folders v"
  then have nf: "\<not> writeFails h (filePathOf h s memo)" and nd: "filePathOf h s memo \<notin> folders v"
    by simp_all
  from saveMemoToFile_created[OF nf nd] obtain v' imgs others where
    r: "saveMemoToFile h s memo v = (Inr (), v')"
    and i: "subseq imgs (images memo)" and o: "subseq others (otherFiles memo)"
    and d: "files v' (filePathOf h s memo) = Some (documentOf h memo imgs others)"
    and f: "(\<forall>r\<in>set (resources memo).
                 \<not> exists_path v (localPathOf r (monthDirOf h s memo)) \<and> failsToFetch h s r)
               \<longrightarrow> imgs = [] \<and> others = []"
    by blast
  have "saveAll h s (memo # memos) n v = saveAll h s memos (Suc n) v'"
    by (simp add: r)
  with r i o d f show "\<exists>v' imgs others.
          saveMemoToFile h s memo v = (Inr (), v')
          \<and> subseq imgs (images memo) \<and> subseq others (otherFiles memo)
          \<and> files v' (filePathOf h s memo) = Some (documentOf h memo imgs others)
          \<and> ((\<forall>r\<in>set (resources memo).
                 \<not> exists_path v (localPathOf r (monthDirOf h s memo)) \<and> failsToFetch h s r)
               \<longrightarrow> imgs = [] \<and> others = [])
          \<and> saveAll h s (memo # memos) n v = saveAll h s memos (Suc n) v'"
    by blast
qed

theorem download_failure_isolated_witness:
  "\<not> exists_path emptyWorld (localPathOf photo (monthDirOf offlineHost scenarioSettings meeting))
   \<and> failsToFetch offlineHost scenarioSettings photo
   \<and> fst (downloadResource offlineHost scenarioSettings photo
             (monthDirOf offlineHost scenarioSettings meeting) emptyWorld) = None
   \<and> \<not> writeFails offlineHost (filePathOf offlineHost scenarioSettings meeting)
   \<and> filePathOf offlineHost scenarioSettings meeting \<notin> folders emptyWorld
   \<and> fst (saveMemoToFile offlineHost scenarioSettings meeting emptyWorld) = Inr ()
   \<and> files (snd (saveMemoToFile offlineHost scenarioSettings meeting emptyWorld))
        (filePathOf offlineHost scenarioSettings meeting)
       = Some (documentOf offlineHost meeting [] [])
   \<and> fst (saveAll offlineHost scenarioSettings [meeting] 0 emptyWorld) = Inr 1"
proof -
  let ?h = offlineHost and ?s = scenarioSettings
  let ?dir = "monthDirOf ?h ?s meeting"
  have e: "\<not> exists_path emptyWorld (localPathOf photo ?dir)"
    by (simp add: exists_path_def emptyWorld_def)
  have f: "failsToFetch ?h ?s photo"
    by (simp add: failsToFetch_def offlineHost_def utcHost_def)
  have nf: "\<not> writeFails ?h (filePathOf ?h ?s meeting)"
    by (simp add: offlineHost_def utcHost_def)
  have nd: "filePathOf ?h ?s meeting \<notin> folders emptyWorld" by (simp add: emptyWorld_def)
  have all: "\<forall>r\<in>set (resources meeting). \<not> exists_path emptyWorld (localPathOf r ?dir) \<and> failsToFetch ?h ?s r"
    using e f by (simp add: meeting_def memoOf_def)
  note t = download_failure_isolated[where w = emptyWorld and r = photo and dir = ?dir and h = ?h
      and s = ?s and memo = meeting and v = emptyWorld and memos = "[]" and n = 0
      and rs = "[]" and mark = "''!''" and fp = "filePathOf ?h ?s meeting" and doc = "[]"]
  have 1: "fst (downloadResource ?h ?s photo ?dir emptyWorld) = None"
    using t[THEN conjunct1, THEN mp, OF conjI[OF e f], THEN conjunct1] by (simp only: fst_conv)
  from t[THEN conjunct2, THEN mp, OF conjI[OF nf nd]] obtain v' imgs others where
    r: "saveMemoToFile ?h ?s meeting emptyWorld = (Inr (), v')"
    and d: "files v' (filePathOf ?h ?s meeting) = Some (documentOf ?h meeting imgs others)"
    and g: "(\<forall>r\<in>set (resources meeting).
                 \<not> exists_path emptyWorld (localPathOf r ?dir) \<and> failsToFetch ?h ?s r)
               \<longrightarrow> imgs = [] \<and> others = []"
    and sa: "saveAll ?h ?s [meeting] 0 emptyWorld = saveAll ?h ?s [] (Suc 0) v'"
    by blast
  from g all have "imgs = []" "others = []" by simp_all
  with d have 3: "files (snd (saveMemoToFile ?h ?s meeting emptyWorld)) (filePathOf ?h ?s meeting)
       = Some (documentOf ?h meeting [] [])"
    by (simp add: r)
  have 2: "fst (saveMemoToFile ?h ?s meeting emptyWorld) = Inr ()" by (simp add: r)
  have 4: "fst (saveAll ?h ?s [meeting] 0 emptyWorld) = Inr 1" by (simp add: r)
  show ?thesis by (intro conjI e f 1 nf nd 2 3 4)
qed

section \<open>The scenario of the specification\<close>

lemma scenario_date:
  "newDate ''2024-03-15T10:30:00Z'' = Some 1710498600000"
  by code_simp

lemma scenario_formats:
  "formatDateTime 0 (Some 1710498600000) Filename = ''2024-03-15 10-30''"
  "formatDateTime 0 (Some 1710498600000) Display = ''2024-03-15 10:30:00''"
  "String_of (getFullYear 0 (Some 1710498600000)) = ''2024''"
  "padStart 2 CHR ''0'' (String_of (map_option (\<lambda>m. m + 1) (getMonth 0 (Some 1710498600000)))) = ''03''"
  by code_simp+

lemma scenario_zone: "tzMinutes servingHost = 0" "tzMinutes offlineHost = 0"
  by (simp_all add: servingHost_def offlineHost_def utcHost_def)

lemma scenario_meeting:
  "content meeting = ''Meeting notes #work#''" "name meeting = ''memos/42''"
  "createTime meeting = ''2024-03-15T10:30:00Z''" "updateTime meeting = ''2024-03-15T10:30:00Z''"
  "visibility meeting = ''PRIVATE''" "resources meeting = [photo]"
  by (simp_all add: meeting_def memoOf_def)

lemma scenario_dirs:
  "tzMinutes h = 0 \<Longrightarrow> yearDirOf h s meeting = syncDirectory s @ ''/2024''"
  "tzMinutes h = 0 \<Longrightarrow> monthDirOf h s meeting = syncDirectory s @ ''/2024/03''"
  by (simp_all add: yearDirOf_def monthDirOf_def scenario_meeting scenario_date scenario_formats)

lemma scenario_fileName:
  "tzMinutes h = 0 \<Longrightarrow> fileNameOf h meeting = ''Meeting notes _work_ (2024-03-15 10-30).md''"
proof -
  assume z: "tzMinutes h = 0"
  have p: "contentPreviewOf meeting = ''Meeting notes _work_''"
    by (simp add: contentPreviewOf_def scenario_meeting) code_simp
  have t: "timeStrOf h meeting = ''2024-03-15 10-30''"
    by (simp add: timeStrOf_def z scenario_meeting scenario_date scenario_formats)
  show ?thesis unfolding fileNameOf_def p t by code_simp
qed

lemma scenario_photo:
  "isImageFile (filename photo)"
  "localPathOf photo dir = dir @ ''/resources/r7_photo.jpg''"
  "resourceUrlOf scenarioSettings photo = ''https://memos.example/file/resources/r7/photo.jpg''"
  "linkLine mark photo = mark @ ''[photo.jpg](resources/r7_photo.jpg)\<newline>''"
proof -
  have f: "filename photo = ''photo.jpg''" "rname photo = ''resources/r7''" by (simp_all add: photo_def)
  have i: "resourceIdOf photo = ''r7''" unfolding resourceIdOf_def f by code_simp
  have sn: "sanitizeFileName ''photo.jpg'' = ''photo.jpg''" by code_simp
  show "isImageFile (filename photo)" unfolding f by code_simp
  show "localPathOf photo dir = dir @ ''/resources/r7_photo.jpg''"
    by (simp add: localPathOf_def i f sn)
  have u: "memosApiUrl scenarioSettings = ''https://memos.example/api/v1''"
    by (simp add: scenarioSettings_def settingsOf_def)
  have e: "encodeURIComponent ''photo.jpg'' = ''photo.jpg''" by code_simp
  have r: "removeFirst ''/api/v1'' ''https://memos.example/api/v1'' = ''https://memos.example''"
    by code_simp
  show "resourceUrlOf scenarioSettings photo = ''https://memos.example/file/resources/r7/photo.jpg''"
    by (simp add: resourceUrlOf_def i f u e r)
  show "linkLine mark photo = mark @ ''[photo.jpg](resources/r7_photo.jpg)\<newline>''"
    by (simp add: linkLine_def i f sn)
qed

lemma scenario_text:
  "rewriteTags ''Meeting notes #work#'' = ''Meeting notes #work''"
  "cleanTags ''Meeting notes #work#'' = [''work'']"
  "toLowerCase ''PRIVATE'' = ''private''"
  by code_simp+

lemma scenario_properties:
  "tzMinutes h = 0 \<Longrightarrow>
   properties h meeting
     = ''\<newline>\<newline>---\<newline>> [!note]- Memo Properties\<newline>> - Created: 2024-03-15 10:30:00\<newline>> - Updated: 2024-03-15 10:30:00\<newline>> - Type: memo\<newline>> - Tags: [work]\<newline>> - ID: memos/42\<newline>> - Visibility: private\<newline>''"
  by (simp add: properties_def scenario_meeting scenario_date scenario_formats scenario_text)

lemma scenario_settings:
  "memosApiUrl scenarioSettings = ''https://memos.example/api/v1''"
  "memosAccessToken scenarioSettings = ''token''"
  "syncDirectory scenarioSettings = ''memos''"
  "syncLimit scenarioSettings = 1000"
  by (simp_all add: scenarioSettings_def settingsOf_def DEFAULT_SETTINGS_def)

lemma scenario_hosts:
  "fetchPage servingHost url offset = Resp 200 (Json (Some [meeting]) None)"
  "fetchFile servingHost url = Resp 200 ''JPEG''"
  "\<not> writeFails servingHost p"
  "fetchFile offlineHost url = Threw FailedToFetch"
  "\<not> writeFails offlineHost p"
  by (simp_all add: servingHost_def offlineHost_def utcHost_def)

lemma scenario_fetch:
  "fetchAllMemos servingHost scenarioSettings w
     = Some (Inr [meeting], send (GetMemos ''https://memos.example/api/v1/memos'' None) w)"
proof -
  have i: "includesStr ''/api/v1'' ''https://memos.example/api/v1''" by code_simp
  have l: "fetchLoop servingHost scenarioSettings [] None w
             = Some (Inr [meeting], send (GetMemos ''https://memos.example/api/v1/memos'' None) w)"
    by (subst fetchLoop.simps)
       (simp add: scenario_settings scenario_hosts truthy_def ok_def Let_def)
  show ?thesis
    by (simp add: fetchAllMemos_def scenario_settings i l slice0_def sortBy_def)
qed


lemma scenario_link:
  "getRelativePath ''memos/2024/03/Meeting notes _work_ (2024-03-15 10-30).md''
     ''memos/2024/03/resources/r7_photo.jpg'' = ''resources/r7_photo.jpg''"
  by (simp add: getRelativePath_lcp)

lemma scenario_photo_parts:
  "filename photo = ''photo.jpg''" "resourceIdOf photo = ''r7''"
  "sanitizeFileName ''photo.jpg'' = ''photo.jpg''" "isImageFile ''photo.jpg''"
proof -
  show f: "filename photo = ''photo.jpg''" by (simp add: photo_def)
  have n: "rname photo = ''resources/r7''" by (simp add: photo_def)
  show "resourceIdOf photo = ''r7''" unfolding resourceIdOf_def n by code_simp
  show "sanitizeFileName ''photo.jpg'' = ''photo.jpg''" by code_simp
  show "isImageFile ''photo.jpg''" by code_simp
qed

lemma scenario_save:
  "saveMemoToFile servingHost scenarioSettings meeting
     \<lparr>files = Map.empty, folders = {''memos''}, netlog = log, notices = ns\<rparr>
   = (Inr (),
      \<lparr>files = [''memos/2024/03/resources/r7_photo.jpg'' \<mapsto> ''JPEG'',
                ''memos/2024/03/Meeting notes _work_ (2024-03-15 10-30).md'' \<mapsto>
                  ''Meeting notes #work\<newline>\<newline>![photo.jpg](resources/r7_photo.jpg)\<newline>\<newline>\<newline>---\<newline>> [!note]- Memo Properties\<newline>> - Created: 2024-03-15 10:30:00\<newline>> - Updated: 2024-03-15 10:30:00\<newline>> - Type: memo\<newline>> - Tags: [work]\<newline>> - ID: memos/42\<newline>> - Visibility: private\<newline>''],
       folders = {''memos/2024/03/resources'', ''memos/2024/03'', ''memos/2024'', ''memos''},
       netlog = log @ [GetFile ''https://memos.example/file/resources/r7/photo.jpg''],
       notices = ns\<rparr>)"
  by (simp add: saveMemoToFile_unfold Let_def images_def otherFiles_def filePathOf_def
      scenario_meeting scenario_photo(2,3) scenario_dirs scenario_zone scenario_fileName
      scenario_settings downloadResource_unfold scenario_hosts ok_def exists_path_def
      ensureDirectoryExists_def mkdir_def send_def putFile_def vault_create_def vault_modify_def
      scenario_link scenario_text scenario_photo_parts scenario_properties
      del: rewriteTags.simps)

lemma scenario_run:
  "syncMemos servingHost scenarioSettings emptyWorld
   = Some \<lparr>files = [''memos/2024/03/resources/r7_photo.jpg'' \<mapsto> ''JPEG'',
                ''memos/2024/03/Meeting notes _work_ (2024-03-15 10-30).md'' \<mapsto>
                  ''Meeting notes #work\<newline>\<newline>![photo.jpg](resources/r7_photo.jpg)\<newline>\<newline>\<newline>---\<newline>> [!note]- Memo Properties\<newline>> - Created: 2024-03-15 10:30:00\<newline>> - Updated: 2024-03-15 10:30:00\<newline>> - Type: memo\<newline>> - Tags: [work]\<newline>> - ID: memos/42\<newline>> - Visibility: private\<newline>''],
       folders = {''memos/2024/03/resources'', ''memos/2024/03'', ''memos/2024'', ''memos''},
       netlog = [GetMemos ''https://memos.example/api/v1/memos'' None,
                 GetFile ''https://memos.example/file/resources/r7/photo.jpg''],
       notices = [SyncStarted, Found 1, Synced 1]\<rparr>"
  by (simp add: syncMemos_def scenario_settings scenario_fetch Let_def emptyWorld_def
      displayMessage_def ensureDirectoryExists_def mkdir_def exists_path_def send_def
      scenario_save)

text \<open>
  Claim C2, as amended. On a machine in the zone of UTC, with the sync directory \<open>memos\<close>,
  one sync over the scenario writes the image to \<open>memos/2024/03/resources/r7_photo.jpg\<close> and
  the document to \<open>memos/2024/03/Meeting notes _work_ (2024-03-15 10-30).md\<close>: in the file
  name each \<open>#\<close> of the content has become \<open>_\<close>. The document has the text with the tag
  rewritten, the image reference, and the metadata block with the tag \<open>work\<close> and the id
  of the record.
\<close>

theorem scenario_sync:
  "\<exists>w. syncMemos servingHost scenarioSettings emptyWorld = Some w
      \<and> files w ''memos/2024/03/Meeting notes _work_ (2024-03-15 10-30).md''
          = Some ''Meeting notes #work\<newline>\<newline>![photo.jpg](resources/r7_photo.jpg)\<newline>\<newline>\<newline>---\<newline>> [!note]- Memo Properties\<newline>> - Created: 2024-03-15 10:30:00\<newline>> - Updated: 2024-03-15 10:30:00\<newline>> - Type: memo\<newline>> - Tags: [work]\<newline>> - ID: memos/42\<newline>> - Visibility: private\<newline>''
      \<and> files w ''memos/2024/03/resources/r7_photo.jpg'' = Some ''JPEG''
      \<and> netlog w = [GetMemos ''https://memos.example/api/v1/memos'' None,
                      GetFile ''https://memos.example/file/resources/r7/photo.jpg'']
      \<and> notices w = [SyncStarted, Found 1, Synced 1]"
  by (simp add: scenario_run)

text \<open>
  Claim C2, as stated, names the file \<open>Meeting notes #work (2024-03-15 10-30).md\<close>. No file
  of that name is written: \<open>sanitizeFileName\<close> replaces \<open>#\<close>, and the name is made from the
  raw content, tag delimiters included. In another zone the time in the name is another
  one too.
\<close>

theorem scenario_counterexample:
  "(\<exists>w. syncMemos servingHost scenarioSettings emptyWorld = Some w
       \<and> files w ''memos/2024/03/Meeting notes #work (2024-03-15 10-30).md'' = None)
   \<and> fileNameOf servingHost meeting = ''Meeting notes _work_ (2024-03-15 10-30).md''
   \<and> fileNameOf (servingHost\<lparr>tzMinutes := 480\<rparr>) meeting
       = ''Meeting notes _work_ (2024-03-15 18-30).md''"
proof -
  have z: "fileNameOf (servingHost\<lparr>tzMinutes := 480\<rparr>) meeting
       = ''Meeting notes _work_ (2024-03-15 18-30).md''"
    by code_simp
  show ?thesis
    by (simp add: scenario_run scenario_fileName scenario_zone z)
qed

section \<open>Images and other attachments\<close>









section \<open>Pagination\<close>




















end
